theory Spec2Isabelle
  imports Main "HOL-Library.Word" "HOL-Library.Sublist"
begin

section \<open>Strings\<close>

text \<open>
  A JavaScript string is a sequence of UTF-16 code units. \<open>utf16\<close> embeds the
  printable ASCII part of a literal; code units outside it are written as numerals.
\<close>

type_synonym jsstring = "16 word list"

definition utf16 :: "string \<Rightarrow> jsstring" where
  "utf16 cs = map of_char cs"

text \<open>A template literal that spans several source lines: the lines joined by U+000A.\<close>

fun template_lines :: "jsstring list \<Rightarrow> jsstring" where
  "template_lines [] = []"
| "template_lines [l] = l"
| "template_lines (l # ls) = l @ 0x0A # template_lines ls"

text \<open>
  \<open>String.prototype.startsWith\<close> at position 0 and \<open>String.prototype.includes\<close>:
  \<open>includes_js s t\<close> is \<open>s.includes(t)\<close>, true when \<open>t\<close> occurs in \<open>s\<close> at some index.
\<close>

fun startsWith :: "'a list \<Rightarrow> 'a list \<Rightarrow> bool" where
  "startsWith s [] = True"
| "startsWith [] (y # t) = False"
| "startsWith (x # s) (y # t) = (x = y \<and> startsWith s t)"

fun includes_js :: "'a list \<Rightarrow> 'a list \<Rightarrow> bool" where
  "includes_js [] t = startsWith [] t"
| "includes_js (x # s) t = (startsWith (x # s) t \<or> includes_js s t)"

text \<open>
  \<open>String.prototype.toLowerCase\<close> belongs to the host, not to the repository. The
  filter below takes the case mapping as a parameter; \<open>toLowerCase\<close> is the mapping on
  Basic Latin (A-Z to a-z) that leaves every other code unit as it is. It agrees with
  the host on every string of the catalogue, whose only cased letters are ASCII.
\<close>

definition toLowerCaseUnit :: "16 word \<Rightarrow> 16 word" where
  "toLowerCaseUnit c = (if 0x41 \<le> c \<and> c \<le> 0x5A then c + 0x20 else c)"

definition toLowerCase :: "jsstring \<Rightarrow> jsstring" where
  "toLowerCase s = map toLowerCaseUnit s"

section \<open>The catalogue\<close>

text \<open>
  An entry of \<open>SECTIONS\<close>, with the fields of the object literals in \<open>App.jsx\<close>
  (\<open>id'\<close> and \<open>note'\<close> for \<open>id\<close> and \<open>note\<close>). The entries follow in the order
  of the source, each with its code sample as a constant of its own.
\<close>

record topic =
  id' :: jsstring
  color :: jsstring
  label :: jsstring
  desc :: jsstring
  note' :: jsstring
  code :: jsstring

definition code_fn_comp :: jsstring where
  \<open>code_fn_comp = template_lines
    [utf16 ''// Basic'',
     utf16 ''function Greeting({ name }) {'',
     utf16 ''  return <h1>Hello, {name}!</h1>;'',
     utf16 ''}'',
     [],
     utf16 ''// Arrow + default prop'',
     utf16 ''const Btn = ({ label, onClick, disabled = false }) => ('',
     utf16 ''  <button onClick={onClick} disabled={disabled}>{label}</button>'',
     utf16 '');'',
     [],
     (utf16 ''// Fragment '' @ [0x2014] @ utf16 '' no extra DOM wrapper''),
     utf16 ''function List() {'',
     utf16 ''  return ('',
     utf16 ''    <>'',
     utf16 ''      <li>Apple</li>'',
     utf16 ''      <li>Mango</li>'',
     utf16 ''    </>'',
     utf16 ''  );'',
     utf16 ''}'']\<close>

definition sec_fn_comp :: topic where
  \<open>sec_fn_comp = \<lparr>
    id' = utf16 ''fn-comp'', color = utf16 ''#F97316'',
    label = utf16 ''Functional Components'',
    desc = utf16 ''Plain JS functions that return JSX. The modern way to write React.'',
    note' = utf16 ''Hooks only work inside functional components. Prefer function declarations for top-level components '' @ [0x2014] @ utf16 '' they show up better in stack traces.'',
    code = code_fn_comp \<rparr>\<close>

definition code_comp_patterns :: jsstring where
  \<open>code_comp_patterns = template_lines
    [utf16 ''// 1. Composition'',
     utf16 ''function Card({ children, footer }) {'',
     utf16 ''  return ('',
     utf16 ''    <div>'',
     utf16 ''      <div>{children}</div>'',
     utf16 ''      {footer && <div>{footer}</div>}'',
     utf16 ''    </div>'',
     utf16 ''  );'',
     utf16 ''}'',
     [],
     utf16 ''// 2. Render prop'',
     utf16 ''function Mouse({ render }) {'',
     utf16 ''  const [pos, setPos] = useState({ x:0, y:0 });'',
     utf16 ''  return ('',
     utf16 ''    <div onMouseMove={e => setPos({ x:e.clientX, y:e.clientY })}>'',
     utf16 ''      {render(pos)}'',
     utf16 ''    </div>'',
     utf16 ''  );'',
     utf16 ''}'',
     [],
     utf16 ''// 3. HOC'',
     utf16 ''function withLogger(Wrapped) {'',
     utf16 ''  return function(props) {'',
     utf16 ''    useEffect(() => console.log('mounted', props), []);'',
     utf16 ''    return <Wrapped {...props} />;'',
     utf16 ''  };'',
     utf16 ''}'',
     [],
     utf16 ''// 4. Custom hook (modern alternative)'',
     utf16 ''function useMouse() {'',
     utf16 ''  const [pos, setPos] = useState({ x:0, y:0 });'',
     utf16 ''  useEffect(() => {'',
     utf16 ''    const fn = e => setPos({ x:e.clientX, y:e.clientY });'',
     utf16 ''    window.addEventListener('mousemove', fn);'',
     utf16 ''    return () => window.removeEventListener('mousemove', fn);'',
     utf16 ''  }, []);'',
     utf16 ''  return pos;'',
     utf16 ''}'']\<close>

definition sec_comp_patterns :: topic where
  \<open>sec_comp_patterns = \<lparr>
    id' = utf16 ''comp-patterns'', color = utf16 ''#C084FC'',
    label = utf16 ''Component Patterns'',
    desc = utf16 ''Composition, compound components, render props, HOCs, and custom hooks.'',
    note' = utf16 ''Prefer composition and custom hooks over HOCs/render-props in modern React '' @ [0x2014] @ utf16 '' simpler and hook-friendly.'',
    code = code_comp_patterns \<rparr>\<close>

definition code_useState :: jsstring where
  \<open>code_useState = template_lines
    [utf16 ''const [count, setCount] = useState(0);'',
     utf16 ''const [user, setUser]   = useState({ name: 'Ada' });'',
     [],
     utf16 ''// Update primitive'',
     utf16 ''setCount(prev => prev + 1);'',
     [],
     (utf16 ''// Update object '' @ [0x2014] @ utf16 '' spread to keep other keys''),
     utf16 ''setUser(prev => ({ ...prev, name: 'Grace' }));'',
     [],
     utf16 ''// Lazy initialiser (runs once)'',
     utf16 ''const [data, setData] = useState(() => JSON.parse(localStorage.getItem('data') ?? 'null'));'']\<close>

definition sec_useState :: topic where
  \<open>sec_useState = \<lparr>
    id' = utf16 ''useState'', color = utf16 ''#FF6B6B'',
    label = utf16 ''useState'',
    desc = utf16 ''Manages local component state. Returns [value, setter].'',
    note' = utf16 ''Use the functional form (prev =>) whenever new state depends on old. Never mutate state directly.'',
    code = code_useState \<rparr>\<close>

definition code_useEffect :: jsstring where
  \<open>code_useEffect = template_lines
    [utf16 ''// Once on mount'',
     utf16 ''useEffect(() => { fetchUser(id).then(setUser); }, []);'',
     [],
     utf16 ''// When deps change'',
     utf16 ''useEffect(() => { fetchUser(id).then(setUser); }, [id]);'',
     [],
     utf16 ''// Cleanup'',
     utf16 ''useEffect(() => {'',
     utf16 ''  const sub = socket.subscribe(room, onMsg);'',
     utf16 ''  return () => sub.unsubscribe();'',
     utf16 ''}, [room]);'',
     [],
     utf16 ''// Safe async pattern'',
     utf16 ''useEffect(() => {'',
     utf16 ''  let cancelled = false;'',
     utf16 ''  async function load() {'',
     utf16 ''    const data = await fetchData(id);'',
     utf16 ''    if (!cancelled) setData(data);'',
     utf16 ''  }'',
     utf16 ''  load();'',
     utf16 ''  return () => { cancelled = true; };'',
     utf16 ''}, [id]);'']\<close>

definition sec_useEffect :: topic where
  \<open>sec_useEffect = \<lparr>
    id' = utf16 ''useEffect'', color = utf16 ''#38BDF8'',
    label = utf16 ''useEffect'',
    desc = utf16 ''Side effects after render '' @ [0x2014] @ utf16 '' fetching, subscriptions, DOM changes.'',
    note' = utf16 ''Every value from component scope used inside must be in the deps array. Return a cleanup function to avoid memory leaks.'',
    code = code_useEffect \<rparr>\<close>

definition code_useRef :: jsstring where
  \<open>code_useRef = template_lines
    [utf16 ''// DOM access'',
     utf16 ''function AutoFocus() {'',
     utf16 ''  const ref = useRef(null);'',
     utf16 ''  useEffect(() => { ref.current.focus(); }, []);'',
     utf16 ''  return <input ref={ref} />;'',
     utf16 ''}'',
     [],
     utf16 ''// Store mutable value (timer ID)'',
     utf16 ''const timerRef = useRef(null);'',
     utf16 ''const start = () => {'',
     utf16 ''  timerRef.current = setInterval(() => tick(), 1000);'',
     utf16 ''};'',
     utf16 ''const stop = () => clearInterval(timerRef.current);'',
     [],
     utf16 ''// Previous value pattern'',
     utf16 ''function usePrevious(value) {'',
     utf16 ''  const ref = useRef();'',
     utf16 ''  useEffect(() => { ref.current = value; }, [value]);'',
     utf16 ''  return ref.current;'',
     utf16 ''}'',
     utf16 ''const prevCount = usePrevious(count);'']\<close>

definition sec_useRef :: topic where
  \<open>sec_useRef = \<lparr>
    id' = utf16 ''useRef'', color = utf16 ''#67E8F9'',
    label = utf16 ''useRef'',
    desc = utf16 ''Mutable value that persists across renders without triggering re-renders. Also for DOM access.'',
    note' = utf16 ''Writing to ref.current never causes a re-render. Use refs for timer IDs, DOM nodes, previous values, and third-party imperative APIs.'',
    code = code_useRef \<rparr>\<close>

definition code_useContext :: jsstring where
  \<open>code_useContext = template_lines
    [utf16 ''// 1. Create'',
     utf16 ''const ThemeCtx = createContext('light');'',
     [],
     utf16 ''// 2. Provide'',
     utf16 ''// <ThemeCtx.Provider value="dark">'',
     utf16 ''//   <App />'',
     utf16 ''// </ThemeCtx.Provider>'',
     [],
     utf16 ''// 3. Consume anywhere in tree'',
     utf16 ''const theme = useContext(ThemeCtx);'',
     [],
     utf16 ''// Memoize value to avoid extra re-renders'',
     utf16 ''const ctx = useMemo(() => ({ user, logout }), [user]);'']\<close>

definition sec_useContext :: topic where
  \<open>sec_useContext = \<lparr>
    id' = utf16 ''useContext'', color = utf16 ''#4ECDC4'',
    label = utf16 ''useContext'',
    desc = utf16 ''Consume React context '' @ [0x2014] @ utf16 '' avoids prop drilling through many layers.'',
    note' = utf16 ''Every consumer re-renders when context value changes. Memoize the value object to prevent unnecessary re-renders.'',
    code = code_useContext \<rparr>\<close>

definition code_useReducer :: jsstring where
  \<open>code_useReducer = template_lines
    [utf16 ''const reducer = (state, action) => {'',
     utf16 ''  switch (action.type) {'',
     utf16 ''    case 'INC':   return { count: state.count + 1 };'',
     utf16 ''    case 'RESET': return { count: 0 };'',
     utf16 ''    default:      return state;'',
     utf16 ''  }'',
     utf16 ''};'',
     [],
     utf16 ''const [state, dispatch] = useReducer(reducer, { count: 0 });'',
     [],
     utf16 ''dispatch({ type: 'INC' });'',
     utf16 ''dispatch({ type: 'RESET' });'']\<close>

definition sec_useReducer :: topic where
  \<open>sec_useReducer = \<lparr>
    id' = utf16 ''useReducer'', color = utf16 ''#A78BFA'',
    label = utf16 ''useReducer'',
    desc = utf16 ''useState for complex state. Centralises updates in a reducer function.'',
    note' = utf16 ''Prefer useReducer when multiple sub-values update together or when next state depends on previous in complex ways.'',
    code = code_useReducer \<rparr>\<close>

definition code_useCallback :: jsstring where
  \<open>code_useCallback = template_lines
    [utf16 ''const handleClick = useCallback(() => {'',
     utf16 ''  doSomething(id);'',
     utf16 ''}, [id]);'',
     [],
     utf16 ''// Pass to memoized child without breaking memo'',
     utf16 ''// <MemoChild onClick={handleClick} />'',
     [],
     utf16 ''// Equivalent to:'',
     utf16 ''const fn = useMemo(() => () => doSomething(id), [id]);'']\<close>

definition sec_useCallback :: topic where
  \<open>sec_useCallback = \<lparr>
    id' = utf16 ''useCallback'', color = utf16 ''#F59E0B'',
    label = utf16 ''useCallback'',
    desc = utf16 ''Memoizes a function '' @ [0x2014] @ utf16 '' stable reference unless deps change.'',
    note' = utf16 ''Only useful when passing to React.memo children or as useEffect deps. Otherwise it just adds overhead.'',
    code = code_useCallback \<rparr>\<close>

definition code_useMemo :: jsstring where
  \<open>code_useMemo = template_lines
    [utf16 ''const sorted = useMemo(() =>'',
     utf16 ''  [...items].sort((a, b) => a.name.localeCompare(b.name)),'',
     utf16 ''  [items]'',
     utf16 '');'',
     [],
     utf16 ''// Stable ref for context value'',
     utf16 ''const ctx = useMemo(() => ({ user, logout }), [user]);'',
     [],
     utf16 ''// Derived value'',
     utf16 ''const total = useMemo('',
     utf16 ''  () => cart.reduce((sum, i) => sum + i.price, 0),'',
     utf16 ''  [cart]'',
     utf16 '');'']\<close>

definition sec_useMemo :: topic where
  \<open>sec_useMemo = \<lparr>
    id' = utf16 ''useMemo'', color = utf16 ''#34D399'',
    label = utf16 ''useMemo'',
    desc = utf16 ''Memoizes an expensive computed value '' @ [0x2014] @ utf16 '' recalculates only when deps change.'',
    note' = utf16 ''Don't over-use '' @ [0x2014] @ utf16 '' it adds memory overhead. Profile first, then apply where you measure a real problem.'',
    code = code_useMemo \<rparr>\<close>

definition code_custom_hooks :: jsstring where
  \<open>code_custom_hooks = template_lines
    [utf16 ''// useFetch'',
     utf16 ''function useFetch(url) {'',
     utf16 ''  const [data, setData]       = useState(null);'',
     utf16 ''  const [loading, setLoading] = useState(true);'',
     utf16 ''  const [error, setError]     = useState(null);'',
     utf16 ''  useEffect(() => {'',
     utf16 ''    let cancelled = false;'',
     utf16 ''    fetch(url).then(r => r.json())'',
     utf16 ''      .then(d => { if (!cancelled) { setData(d); setLoading(false); } })'',
     utf16 ''      .catch(e => { if (!cancelled) { setError(e); setLoading(false); } });'',
     utf16 ''    return () => { cancelled = true; };'',
     utf16 ''  }, [url]);'',
     utf16 ''  return { data, loading, error };'',
     utf16 ''}'',
     [],
     utf16 ''// useLocalStorage'',
     utf16 ''function useLocalStorage(key, init) {'',
     utf16 ''  const [val, setVal] = useState(() => {'',
     utf16 ''    try { return JSON.parse(localStorage.getItem(key)) ?? init; }'',
     utf16 ''    catch { return init; }'',
     utf16 ''  });'',
     utf16 ''  const set = v => { setVal(v); localStorage.setItem(key, JSON.stringify(v)); };'',
     utf16 ''  return [val, set];'',
     utf16 ''}'',
     [],
     utf16 ''// useDebounce'',
     utf16 ''function useDebounce(value, delay = 300) {'',
     utf16 ''  const [debounced, setDebounced] = useState(value);'',
     utf16 ''  useEffect(() => {'',
     utf16 ''    const t = setTimeout(() => setDebounced(value), delay);'',
     utf16 ''    return () => clearTimeout(t);'',
     utf16 ''  }, [value, delay]);'',
     utf16 ''  return debounced;'',
     utf16 ''}'']\<close>

definition sec_custom_hooks :: topic where
  \<open>sec_custom_hooks = \<lparr>
    id' = utf16 ''custom-hooks'', color = utf16 ''#A3E635'',
    label = utf16 ''Custom Hooks'',
    desc = utf16 ''Extract reusable stateful logic into 'use' prefixed functions.'',
    note' = utf16 ''Must start with 'use' so React's linter enforces the rules of hooks. One clear purpose per hook.'',
    code = code_custom_hooks \<rparr>\<close>

definition code_props_state :: jsstring where
  \<open>code_props_state = template_lines
    [utf16 ''// Props'',
     utf16 ''function Card({ title, count, onClick }) {'',
     utf16 ''  return <div onClick={onClick}>{title}: {count}</div>;'',
     utf16 ''}'',
     [],
     utf16 ''// Default prop'',
     utf16 ''function Badge({ label = 'New' }) { ... }'',
     [],
     utf16 ''// Children'',
     utf16 ''function Modal({ children }) {'',
     utf16 ''  return <div className="modal">{children}</div>;'',
     utf16 ''}'',
     [],
     utf16 ''// Local state'',
     utf16 ''const [open, setOpen] = useState(false);'',
     [],
     (utf16 ''// Derived '' @ [0x2014] @ utf16 '' compute, don't store''),
     utf16 ''const [items, setItems] = useState([]);'',
     utf16 ''const count = items.length; // NOT a separate useState'']\<close>

definition sec_props_state :: topic where
  \<open>sec_props_state = \<lparr>
    id' = utf16 ''props-state'', color = utf16 ''#F472B6'',
    label = utf16 ''Props & State'',
    desc = utf16 ''Props flow down (read-only). State lives locally and triggers re-renders.'',
    note' = utf16 ''Lift state to the nearest common ancestor when siblings share it. Derive values instead of storing them in state.'',
    code = code_props_state \<rparr>\<close>

definition code_loops :: jsstring where
  \<open>code_loops = template_lines
    [utf16 ''// .map()'',
     utf16 ''// <ul>'',
     utf16 ''//   {items.map(item => ('',
     utf16 ''//     <li key={item.id}>{item.name}</li>'',
     utf16 ''//   ))}'',
     utf16 ''// </ul>'',
     [],
     utf16 ''// .filter() then .map()'',
     utf16 ''const active = users'',
     utf16 ''  .filter(u => u.active)'',
     utf16 ''  .map(u => <UserCard key={u.id} user={u} />);'',
     [],
     utf16 ''// Conditional rendering'',
     utf16 ''// {isLoggedIn ? <Dashboard /> : <Login />}'',
     utf16 ''// {error && <ErrorBanner message={error} />}'',
     utf16 ''// {loading && <Spinner />}'']\<close>

definition sec_loops :: topic where
  \<open>sec_loops = \<lparr>
    id' = utf16 ''loops'', color = utf16 ''#60A5FA'',
    label = utf16 ''Loops & Lists'',
    desc = utf16 ''Render lists with .map() '' @ [0x2014] @ utf16 '' always provide a stable, unique key.'',
    note' = utf16 ''Never use array index as a key for lists that can be reordered or filtered. Keys must only be unique among siblings.'',
    code = code_loops \<rparr>\<close>

definition code_events :: jsstring where
  \<open>code_events = template_lines
    [utf16 ''// Common events: onClick onChange onSubmit onKeyDown onBlur'',
     [],
     utf16 ''const handleClick = e => {'',
     utf16 ''  e.preventDefault();    // stop default browser action'',
     utf16 ''  e.stopPropagation();   // stop event bubbling'',
     utf16 ''  console.log(e.target, e.currentTarget);'',
     utf16 ''};'',
     [],
     utf16 ''// Keyboard'',
     utf16 ''const handleKey = e => {'',
     utf16 ''  if (e.key === 'Enter')  submit();'',
     utf16 ''  if (e.key === 'Escape') close();'',
     utf16 ''};'',
     [],
     utf16 ''// Generic change handler (uses input name attribute)'',
     utf16 ''const handleChange = e => {'',
     utf16 ''  const { name, value, type, checked } = e.target;'',
     utf16 ''  setForm(p => ({'',
     utf16 ''    ...p,'',
     utf16 ''    [name]: type === 'checkbox' ? checked : value,'',
     utf16 ''  }));'',
     utf16 ''};'',
     [],
     (utf16 ''// Event delegation '' @ [0x2014] @ utf16 '' one handler for many children''),
     utf16 ''const handleList = e => {'',
     utf16 ''  const id = e.target.closest('li')?.dataset.id;'',
     utf16 ''  if (id) handleSelect(id);'',
     utf16 ''};'']\<close>

definition sec_events :: topic where
  \<open>sec_events = \<lparr>
    id' = utf16 ''events'', color = utf16 ''#FCD34D'',
    label = utf16 ''Event Handling'',
    desc = utf16 ''React wraps native events in SyntheticEvent for cross-browser consistency.'',
    note' = utf16 ''Always call e.preventDefault() in form onSubmit. Use e.stopPropagation() to prevent bubbling to parent handlers.'',
    code = code_events \<rparr>\<close>

definition code_controlled :: jsstring where
  \<open>code_controlled = template_lines
    [(utf16 ''// CONTROLLED '' @ [0x2014] @ utf16 '' value + onChange''),
     utf16 ''function Controlled() {'',
     (utf16 ''  const [val, setVal] = useState('' @ [0x0027, 0x0027] @ utf16 '');''),
     utf16 ''  return ('',
     utf16 ''    <input value={val} onChange={e => setVal(e.target.value)} />'',
     utf16 ''  );'',
     utf16 ''}'',
     [],
     (utf16 ''// UNCONTROLLED '' @ [0x2014] @ utf16 '' defaultValue + ref''),
     utf16 ''function Uncontrolled() {'',
     utf16 ''  const ref = useRef(null);'',
     utf16 ''  const submit = () => console.log(ref.current.value);'',
     utf16 ''  return ('',
     utf16 ''    <>'',
     utf16 ''      <input ref={ref} defaultValue="initial" />'',
     utf16 ''      <button onClick={submit}>Read</button>'',
     utf16 ''    </>'',
     utf16 ''  );'',
     utf16 ''}'',
     [],
     (utf16 ''// File input '' @ [0x2014] @ utf16 '' always uncontrolled''),
     utf16 ''// <input type="file" ref={fileRef} />'',
     [],
     utf16 ''// Controlled select / checkbox'',
     utf16 ''// <select value={val} onChange={e => setVal(e.target.value)}>'',
     utf16 ''// <input type="checkbox" checked={on} onChange={e => setOn(e.target.checked)} />'']\<close>

definition sec_controlled :: topic where
  \<open>sec_controlled = \<lparr>
    id' = utf16 ''controlled'', color = utf16 ''#FB7185'',
    label = utf16 ''Controlled vs Uncontrolled'',
    desc = utf16 ''Controlled: React owns the value. Uncontrolled: DOM owns it, read via ref.'',
    note' = utf16 ''Prefer controlled inputs '' @ [0x2014] @ utf16 '' predictable and easy to validate. File inputs are always uncontrolled. useRef for 3rd-party libs.'',
    code = code_controlled \<rparr>\<close>

definition code_forms :: jsstring where
  \<open>code_forms = template_lines
    [utf16 ''function SignupForm() {'',
     (utf16 ''  const [form, setForm]     = useState({ name:'' @ [0x0027, 0x0027] @ utf16 '', email:'' @ [0x0027, 0x0027] @ utf16 '', password:'' @ [0x0027, 0x0027] @ utf16 '' });''),
     utf16 ''  const [errors, setErrors] = useState({});'',
     [],
     utf16 ''  const handleChange = e => {'',
     utf16 ''    const { name, value } = e.target;'',
     utf16 ''    setForm(p => ({ ...p, [name]: value }));'',
     (utf16 ''    if (errors[name]) setErrors(p => ({ ...p, [name]: '' @ [0x0027, 0x0027] @ utf16 '' }));''),
     utf16 ''  };'',
     [],
     utf16 ''  const validate = () => {'',
     utf16 ''    const e = {};'',
     utf16 ''    if (!form.name.trim())           e.name = 'Required';'',
     (utf16 ''    if (!/'' @ [0x005C] @ utf16 ''S+@'' @ [0x005C] @ utf16 ''S+/.test(form.email)) e.email = 'Invalid email';''),
     utf16 ''    if (form.password.length < 8)    e.password = 'Min 8 chars';'',
     utf16 ''    return e;'',
     utf16 ''  };'',
     [],
     utf16 ''  const handleSubmit = e => {'',
     utf16 ''    e.preventDefault();'',
     utf16 ''    const errs = validate();'',
     utf16 ''    if (Object.keys(errs).length) { setErrors(errs); return; }'',
     utf16 ''    // await api.signup(form)'',
     utf16 ''  };'',
     [],
     utf16 ''  return ('',
     utf16 ''    <form onSubmit={handleSubmit} noValidate>'',
     utf16 ''      <input name="name"     value={form.name}     onChange={handleChange} />'',
     utf16 ''      {errors.name && <span>{errors.name}</span>}'',
     utf16 ''      <input name="email"    value={form.email}    onChange={handleChange} />'',
     utf16 ''      {errors.email && <span>{errors.email}</span>}'',
     utf16 ''      <input name="password" value={form.password} onChange={handleChange} type="password" />'',
     utf16 ''      {errors.password && <span>{errors.password}</span>}'',
     utf16 ''      <button type="submit">Sign Up</button>'',
     utf16 ''    </form>'',
     utf16 ''  );'',
     utf16 ''}'']\<close>

definition sec_forms :: topic where
  \<open>sec_forms = \<lparr>
    id' = utf16 ''forms'', color = utf16 ''#E879F9'',
    label = utf16 ''Forms with Validation'',
    desc = utf16 ''Full form pattern '' @ [0x2014] @ utf16 '' multiple fields, submit validation, per-field errors.'',
    note' = utf16 ''The [name]: value pattern lets one handler drive all fields. For complex forms use React Hook Form '' @ [0x2014] @ utf16 '' it avoids re-renders on every keystroke.'',
    code = code_forms \<rparr>\<close>

definition code_lazy :: jsstring where
  \<open>code_lazy = template_lines
    [utf16 ''// Lazy load (must be default export)'',
     utf16 ''const Dashboard = React.lazy(() => import('./Dashboard'));'',
     utf16 ''const Chart     = React.lazy(() => import('./Chart'));'',
     [],
     utf16 ''// Wrap with Suspense'',
     utf16 ''// <Suspense fallback={<Spinner />}>'',
     utf16 ''//   <Dashboard />'',
     utf16 ''// </Suspense>'',
     [],
     utf16 ''// Route-level splitting'',
     utf16 ''const Home    = React.lazy(() => import('./pages/Home'));'',
     utf16 ''const Profile = React.lazy(() => import('./pages/Profile'));'',
     utf16 ''// <Suspense fallback={<PageSkeleton />}>'',
     utf16 ''//   <Routes>'',
     utf16 ''//     <Route path="/"        element={<Home />} />'',
     utf16 ''//     <Route path="/profile" element={<Profile />} />'',
     utf16 ''//   </Routes>'',
     utf16 ''// </Suspense>'']\<close>

definition sec_lazy :: topic where
  \<open>sec_lazy = \<lparr>
    id' = utf16 ''lazy'', color = utf16 ''#E879F9'',
    label = utf16 ''React.lazy & Suspense'',
    desc = utf16 ''Code-split components '' @ [0x2014] @ utf16 '' load only when needed to shrink the initial bundle.'',
    note' = utf16 ''React.lazy only works with default exports. Wrap Suspense in an error boundary to handle chunk load failures.'',
    code = code_lazy \<rparr>\<close>

definition code_router :: jsstring where
  \<open>code_router = template_lines
    [utf16 ''// npm i react-router-dom'',
     utf16 ''// <BrowserRouter><App /></BrowserRouter>'',
     [],
     utf16 ''// Declare routes'',
     utf16 ''// <Routes>'',
     utf16 ''//   <Route path="/"          element={<Home />} />'',
     utf16 ''//   <Route path="/users/:id" element={<UserDetail />} />'',
     utf16 ''//   <Route path="*"          element={<NotFound />} />'',
     utf16 ''// </Routes>'',
     [],
     utf16 ''// Links'',
     utf16 ''// <Link to="/about">About</Link>'',
     (utf16 ''// <NavLink to="/about" className={({isActive}) => isActive ? 'active' : '' @ [0x0027, 0x0027] @ utf16 ''}>''),
     [],
     utf16 ''// Programmatic navigation'',
     utf16 ''const navigate = useNavigate();'',
     utf16 ''navigate('/dashboard');'',
     utf16 ''navigate(-1); // back'',
     [],
     utf16 ''// Params & query string'',
     utf16 ''const { id }          = useParams();         // /users/:id'',
     utf16 ''const [params]        = useSearchParams();   // ?tab=info'',
     utf16 ''const tab             = params.get('tab');'',
     [],
     utf16 ''// Nested routes with Outlet'',
     utf16 ''// <Route path="/settings" element={<Settings />}>'',
     utf16 ''//   <Route path="profile" element={<Profile />} />  // <Outlet /> in Settings'']\<close>

definition sec_router :: topic where
  \<open>sec_router = \<lparr>
    id' = utf16 ''router'', color = utf16 ''#2DD4BF'',
    label = utf16 ''React Router v6'',
    desc = utf16 ''Client-side routing '' @ [0x2014] @ utf16 '' the de-facto standard for React SPAs.'',
    note' = utf16 ''v6: Routes not Switch, all routes exact by default. useNavigate replaces useHistory. Nested route paths are relative.'',
    code = code_router \<rparr>\<close>

definition code_perf :: jsstring where
  \<open>code_perf = template_lines
    [utf16 ''// Re-renders when:'',
     utf16 ''// 1. Own state changes'',
     utf16 ''// 2. Parent re-renders (even with same props)'',
     utf16 ''// 3. Consumed context changes'',
     [],
     (utf16 ''// React.memo '' @ [0x2014] @ utf16 '' skip if props unchanged''),
     utf16 ''const List = React.memo(({ items }) => ('',
     utf16 ''  <ul>{items.map(i => <li key={i.id}>{i.name}</li>)}</ul>'',
     utf16 ''));'',
     [],
     utf16 ''// Stable refs prevent breaking memo'',
     utf16 ''const items  = useMemo(() => data.map(format), [data]);'',
     utf16 ''const onClick = useCallback(() => doThing(), []);'',
     utf16 ''// <List items={items} onClick={onClick} />'',
     [],
     utf16 ''// Derive, don't store'',
     utf16 ''const count = items.length; // not useState(0)'',
     [],
     utf16 ''// React 18 automatic batching'',
     utf16 ''setTimeout(() => {'',
     (utf16 ''  setA(1); // '' @ [0x2500, 0x2510] @ utf16 '' one''),
     (utf16 ''  setB(2); // '' @ [0x2500, 0x2518] @ utf16 '' re-render'')]\<close>

definition sec_perf :: topic where
  \<open>sec_perf = \<lparr>
    id' = utf16 ''perf'', color = utf16 ''#34D399'',
    label = utf16 ''Re-renders & Performance'',
    desc = utf16 ''When React re-renders and how to prevent unnecessary ones.'',
    note' = utf16 ''Don't optimise prematurely. Profile first with React DevTools Profiler, then apply memo/useCallback/useMemo where measured.'',
    code = code_perf \<rparr>\<close>

definition code_error_boundaries :: jsstring where
  \<open>code_error_boundaries = template_lines
    [utf16 ''class ErrorBoundary extends React.Component {'',
     utf16 ''  state = { hasError: false, error: null };'',
     [],
     utf16 ''  static getDerivedStateFromError(error) {'',
     utf16 ''    return { hasError: true, error };'',
     utf16 ''  }'',
     [],
     utf16 ''  componentDidCatch(error, info) {'',
     utf16 ''    logToService(error, info.componentStack);'',
     utf16 ''  }'',
     [],
     utf16 ''  render() {'',
     utf16 ''    if (this.state.hasError)'',
     utf16 ''      return this.props.fallback ?? <h2>Something went wrong.</h2>;'',
     utf16 ''    return this.props.children;'',
     utf16 ''  }'',
     utf16 ''}'',
     [],
     utf16 ''// <ErrorBoundary fallback={<ErrorPage />}>'',
     utf16 ''//   <Suspense fallback={<Spinner />}>'',
     utf16 ''//     <LazyPage />'',
     utf16 ''//   </Suspense>'',
     utf16 ''// </ErrorBoundary>'',
     [],
     utf16 ''// Does NOT catch:'',
     (utf16 ''// '' @ [0x2717] @ utf16 '' Event handlers  '' @ [0x2717] @ utf16 '' Async (setTimeout/fetch)''),
     (utf16 ''// '' @ [0x2717] @ utf16 '' SSR             '' @ [0x2717] @ utf16 '' Errors inside the boundary itself'')]\<close>

definition sec_error_boundaries :: topic where
  \<open>sec_error_boundaries = \<lparr>
    id' = utf16 ''error-boundaries'', color = utf16 ''#F87171'',
    label = utf16 ''Error Boundaries'',
    desc = utf16 ''Catch render errors in a subtree and show a fallback UI instead of crashing.'',
    note' = utf16 ''Place one at app root plus smaller ones around independent widgets. react-error-boundary package adds hook-friendly reset/retry support.'',
    code = code_error_boundaries \<rparr>\<close>

definition code_interview :: jsstring where
  \<open>code_interview = template_lines
    [(utf16 ''// Virtual DOM '' @ [0x2014] @ utf16 '' lightweight JS copy of the DOM.''),
     utf16 ''// React diffs it and batches minimal real DOM updates.'',
     [],
     (utf16 ''// Reconciliation '' @ [0x2014] @ utf16 '' the diffing algorithm.''),
     utf16 ''// Keys help React track which list items changed.'',
     [],
     utf16 ''// Rules of Hooks:'',
     utf16 ''// 1. Only call at top level (not in loops/conditions)'',
     utf16 ''// 2. Only call from React functions or custom hooks'',
     [],
     utf16 ''// React.memo'',
     utf16 ''const Pure = React.memo(({ name }) => <p>{name}</p>);'',
     [],
     utf16 ''// Controlled vs Uncontrolled (see dedicated card)'',
     [],
     (utf16 ''// Error boundary (class only '' @ [0x2014] @ utf16 '' no hook equivalent)''),
     utf16 ''// getDerivedStateFromError + componentDidCatch'',
     [],
     utf16 ''// Key interview questions:'',
     (utf16 ''// '' @ [0x2022] @ utf16 '' What causes a re-render?''),
     (utf16 ''// '' @ [0x2022] @ utf16 '' How does useEffect cleanup work?''),
     (utf16 ''// '' @ [0x2022] @ utf16 '' useMemo vs useCallback?''),
     (utf16 ''// '' @ [0x2022] @ utf16 '' What is prop drilling and how do you avoid it?''),
     (utf16 ''// '' @ [0x2022] @ utf16 '' How does React reconciliation use keys?'')]\<close>

definition sec_interview :: topic where
  \<open>sec_interview = \<lparr>
    id' = utf16 ''interview'', color = utf16 ''#FB923C'',
    label = utf16 ''Interview Essentials'',
    desc = utf16 ''Virtual DOM, reconciliation, rules of hooks, and key concepts.'',
    note' = utf16 ''Other hot topics: lifting state, prop drilling solutions, synthetic events, mount/update/unmount phases, and React 18 concurrent features.'',
    code = code_interview \<rparr>\<close>

definition code_temp_converter :: jsstring where
  \<open>code_temp_converter = template_lines
    [utf16 ''function TempConverter() {'',
     (utf16 ''  const [c, setC] = useState('' @ [0x0027, 0x0027] @ utf16 '');''),
     (utf16 ''  const [f, setF] = useState('' @ [0x0027, 0x0027] @ utf16 '');''),
     [],
     utf16 ''  const fromC = e => {'',
     utf16 ''    const v = e.target.value;'',
     utf16 ''    setC(v);'',
     (utf16 ''    setF(v === '' @ [0x0027, 0x0027] @ utf16 '' ? '' @ [0x0027, 0x0027] @ utf16 '' : ((v * 9/5) + 32).toFixed(1));''),
     utf16 ''  };'',
     [],
     utf16 ''  const fromF = e => {'',
     utf16 ''    const v = e.target.value;'',
     utf16 ''    setF(v);'',
     (utf16 ''    setC(v === '' @ [0x0027, 0x0027] @ utf16 '' ? '' @ [0x0027, 0x0027] @ utf16 '' : ((v - 32) * 5/9).toFixed(1));''),
     utf16 ''  };'',
     [],
     utf16 ''  const label = useMemo(() => {'',
     utf16 ''    const n = parseFloat(c);'',
     (utf16 ''    if (isNaN(n)) return '' @ [0x0027, 0x0027] @ utf16 '';''),
     (utf16 ''    if (n < 0)    return 'Freezing '' @ [0xD83E, 0xDD76, 0x0027] @ utf16 '';''),
     (utf16 ''    if (n < 20)   return 'Cool '' @ [0xD83C, 0xDF24, 0x0027] @ utf16 '';''),
     (utf16 ''    if (n < 35)   return 'Warm '' @ [0x2600, 0xFE0F, 0x0027] @ utf16 '';''),
     (utf16 ''    return 'Hot '' @ [0xD83D, 0xDD25, 0x0027] @ utf16 '';''),
     utf16 ''  }, [c]);'',
     [],
     utf16 ''  return ('',
     utf16 ''    <div>'',
     (utf16 ''      <input type="number" value={c} onChange={fromC} placeholder="'' @ [0x00B0] @ utf16 ''C" />''),
     (utf16 ''      <input type="number" value={f} onChange={fromF} placeholder="'' @ [0x00B0] @ utf16 ''F" />''),
     utf16 ''      {label && <p>{label}</p>}'',
     utf16 ''    </div>'',
     utf16 ''  );'',
     utf16 ''}'',
     (utf16 ''// Formulas: C'' @ [0x2192] @ utf16 ''F: (C '' @ [0x00D7] @ utf16 '' 9/5) + 32   F'' @ [0x2192] @ utf16 ''C: (F '' @ [0x2212] @ utf16 '' 32) '' @ [0x00D7] @ utf16 '' 5/9'')]\<close>

definition sec_temp_converter :: topic where
  \<open>sec_temp_converter = \<lparr>
    id' = utf16 ''temp-converter'', color = utf16 ''#FF8C42'',
    label = utf16 ''Mini App: Temperature Converter'',
    desc = utf16 ''Two-way controlled inputs, derived state, and conversion formulas.'',
    note' = utf16 ''Store both as strings to avoid the NaN edge case on empty input. Derive the label with useMemo '' @ [0x2014] @ utf16 '' don't store it as state.'',
    code = code_temp_converter \<rparr>\<close>

definition code_traffic_light :: jsstring where
  \<open>code_traffic_light = template_lines
    [utf16 ''const LIGHTS = ['',
     utf16 ''  { color:'red',    ms:4000, hex:'#EF4444' },'',
     utf16 ''  { color:'yellow', ms:1500, hex:'#EAB308' },'',
     utf16 ''  { color:'green',  ms:3000, hex:'#22C55E' },'',
     utf16 ''];'',
     [],
     utf16 ''function TrafficLight() {'',
     utf16 ''  const [idx, setIdx]         = useState(0);'',
     utf16 ''  const [running, setRunning] = useState(true);'',
     [],
     utf16 ''  useEffect(() => {'',
     utf16 ''    if (!running) return;'',
     utf16 ''    const t = setTimeout(() => {'',
     utf16 ''      setIdx(i => (i + 1) % LIGHTS.length); // cycle with modulo'',
     utf16 ''    }, LIGHTS[idx].ms);'',
     utf16 ''    return () => clearTimeout(t); // cleanup!'',
     utf16 ''  }, [idx, running]);'',
     [],
     utf16 ''  return ('',
     utf16 ''    <div>'',
     utf16 ''      {LIGHTS.map((l, i) => ('',
     utf16 ''        <div key={l.color} style={{'',
     utf16 ''          width:60, height:60, borderRadius:'50%','',
     utf16 ''          background: i === idx ? l.hex : '#333','',
     utf16 ''          boxShadow: i === idx ? '0 0 20px ' + l.hex : 'none','',
     utf16 ''        }} />'',
     utf16 ''      ))}'',
     utf16 ''      <button onClick={() => setRunning(r => !r)}>'',
     utf16 ''        {running ? 'Pause' : 'Resume'}'',
     utf16 ''      </button>'',
     utf16 ''    </div>'',
     utf16 ''  );'',
     utf16 ''}'']\<close>

definition sec_traffic_light :: topic where
  \<open>sec_traffic_light = \<lparr>
    id' = utf16 ''traffic-light'', color = utf16 ''#84CC16'',
    label = utf16 ''Mini App: Traffic Light'',
    desc = utf16 ''Cycling state with modulo, useEffect timers, and cleanup.'',
    note' = utf16 ''The cleanup clearTimeout is critical '' @ [0x2014] @ utf16 '' without it a stale timer fires after the component updates, causing double-advances. Classic interview gotcha.'',
    code = code_traffic_light \<rparr>\<close>

definition code_mini_apps :: jsstring where
  \<open>code_mini_apps = template_lines
    [(utf16 ''// '' @ [0x2500, 0x2500] @ utf16 '' TODO (CRUD) '' @ [0x2500, 0x2500, 0x2500, 0x2500, 0x2500, 0x2500, 0x2500, 0x2500, 0x2500, 0x2500, 0x2500, 0x2500, 0x2500, 0x2500, 0x2500, 0x2500, 0x2500, 0x2500, 0x2500, 0x2500, 0x2500, 0x2500, 0x2500, 0x2500, 0x2500, 0x2500, 0x2500, 0x2500, 0x2500, 0x2500, 0x2500, 0x2500, 0x2500, 0x2500]),
     utf16 ''function TodoList() {'',
     utf16 ''  const [todos, setTodos] = useState([]);'',
     (utf16 ''  const [input, setInput] = useState('' @ [0x0027, 0x0027] @ utf16 '');''),
     utf16 ''  const add    = () => { if (!input.trim()) return;'',
     utf16 ''    setTodos(p => [...p, { id:Date.now(), text:input, done:false }]);'',
     (utf16 ''    setInput('' @ [0x0027, 0x0027] @ utf16 ''); };''),
     utf16 ''  const toggle = id => setTodos(p =>'',
     utf16 ''    p.map(t => t.id===id ? {...t, done:!t.done} : t));'',
     utf16 ''  const remove = id => setTodos(p => p.filter(t => t.id!==id));'',
     utf16 ''  return ('',
     utf16 ''    <div>'',
     utf16 ''      <input value={input} onChange={e=>setInput(e.target.value)}'',
     utf16 ''             onKeyDown={e=>e.key==='Enter'&&add()} />'',
     utf16 ''      <button onClick={add}>Add</button>'',
     utf16 ''      {todos.map(t=>('',
     utf16 ''        <div key={t.id}>'',
     utf16 ''          <span onClick={()=>toggle(t.id)}'',
     utf16 ''            style={{textDecoration:t.done?'line-through':'none'}}>'',
     utf16 ''            {t.text}'',
     utf16 ''          </span>'',
     (utf16 ''          <button onClick={()=>remove(t.id)}>'' @ [0x2715] @ utf16 ''</button>''),
     utf16 ''        </div>'',
     utf16 ''      ))}'',
     utf16 ''    </div>'',
     utf16 ''  );'',
     utf16 ''}'',
     [],
     (utf16 ''// '' @ [0x2500, 0x2500] @ utf16 '' FETCH (loading/data/error) '' @ [0x2500, 0x2500, 0x2500, 0x2500, 0x2500, 0x2500, 0x2500, 0x2500, 0x2500, 0x2500, 0x2500, 0x2500, 0x2500, 0x2500, 0x2500, 0x2500, 0x2500, 0x2500, 0x2500, 0x2500]),
     utf16 ''function UserCard({ id }) {'',
     utf16 ''  const [user, setUser]       = useState(null);'',
     utf16 ''  const [loading, setLoading] = useState(true);'',
     utf16 ''  const [error, setError]     = useState(null);'',
     utf16 ''  useEffect(() => {'',
     utf16 ''    let gone = false;'',
     utf16 ''    setLoading(true);'',
     utf16 ''    fetch('https://jsonplaceholder.typicode.com/users/'+id)'',
     utf16 ''      .then(r => r.json())'',
     utf16 ''      .then(d => { if(!gone) { setUser(d); setLoading(false); } })'',
     utf16 ''      .catch(e => { if(!gone) { setError(e.message); setLoading(false); } });'',
     utf16 ''    return () => { gone = true; };'',
     utf16 ''  }, [id]);'',
     (utf16 ''  if (loading) return <p>Loading'' @ [0x2026] @ utf16 ''</p>;''),
     utf16 ''  if (error)   return <p>Error: {error}</p>;'',
     utf16 ''  return <div><b>{user.name}</b><p>{user.email}</p></div>;'',
     utf16 ''}'',
     [],
     (utf16 ''// '' @ [0x2500, 0x2500] @ utf16 '' DEBOUNCED SEARCH '' @ [0x2500, 0x2500, 0x2500, 0x2500, 0x2500, 0x2500, 0x2500, 0x2500, 0x2500, 0x2500, 0x2500, 0x2500, 0x2500, 0x2500, 0x2500, 0x2500, 0x2500, 0x2500, 0x2500, 0x2500, 0x2500, 0x2500, 0x2500, 0x2500, 0x2500, 0x2500, 0x2500, 0x2500, 0x2500, 0x2500]),
     utf16 ''function SearchBox() {'',
     (utf16 ''  const [query, setQuery] = useState('' @ [0x0027, 0x0027] @ utf16 '');''),
     utf16 ''  const [results, setResults] = useState([]);'',
     [],
     utf16 ''  useEffect(() => {'',
     utf16 ''    if (!query.trim()) return;'',
     utf16 ''    const t = setTimeout(async () => {'',
     utf16 ''      const r = await fetch('/api/search?q='+query).then(r=>r.json());'',
     utf16 ''      setResults(r);'',
     utf16 ''    }, 400);'',
     utf16 ''    return () => clearTimeout(t); // cancel on next keystroke'',
     utf16 ''  }, [query]);'',
     [],
     utf16 ''  return ('',
     utf16 ''    <div>'',
     utf16 ''      <input value={query} onChange={e=>setQuery(e.target.value)}'',
     (utf16 ''             placeholder="Search'' @ [0x2026] @ utf16 ''" />''),
     utf16 ''      {results.map(r => <p key={r.id}>{r.title}</p>)}'',
     utf16 ''    </div>'',
     utf16 ''  );'',
     utf16 ''}'']\<close>

definition sec_mini_apps :: topic where
  \<open>sec_mini_apps = \<lparr>
    id' = utf16 ''mini-apps'', color = utf16 ''#818CF8'',
    label = utf16 ''Mini Apps: Todo, Fetch & Debounce'',
    desc = utf16 ''CRUD array state, async loading/error/data pattern, and debounced search.'',
    note' = utf16 ''For arrays: never push/splice '' @ [0x2014] @ utf16 '' always use spread/map/filter. For fetch: always handle all 3 states (loading, data, error). Cancel stale requests.'',
    code = code_mini_apps \<rparr>\<close>

definition SECTIONS :: "topic list" where
  "SECTIONS =
    [sec_fn_comp, sec_comp_patterns, sec_useState, sec_useEffect,
     sec_useRef, sec_useContext, sec_useReducer, sec_useCallback,
     sec_useMemo, sec_custom_hooks, sec_props_state, sec_loops,
     sec_events, sec_controlled, sec_forms, sec_lazy,
     sec_router, sec_perf, sec_error_boundaries, sec_interview,
     sec_temp_converter, sec_traffic_light, sec_mini_apps]"
section \<open>The filter\<close>

text \<open>The predicate of \<open>SECTIONS.filter\<close> in \<open>App\<close>, with \<open>lq\<close> the lowercased query.\<close>

definition matches :: "(jsstring \<Rightarrow> jsstring) \<Rightarrow> jsstring \<Rightarrow> topic \<Rightarrow> bool" where
  "matches lower lq s =
     (includes_js (lower (label s)) lq \<or>
      includes_js (lower (desc s)) lq \<or>
      includes_js (lower (code s)) lq)"

definition shown :: "(jsstring \<Rightarrow> jsstring) \<Rightarrow> jsstring \<Rightarrow> topic list" where
  "shown lower q = (let lq = lower q in filter (matches lower lq) SECTIONS)"

text \<open>
  \<open>Array.prototype.indexOf\<close>: the first index whose element equals \<open>x\<close>, or \<open>-1\<close>.
  JavaScript compares objects by identity; the entries of the catalogue are pairwise
  different as values, so on them identity and equality of values agree.
\<close>

fun indexOfFrom :: "'a list \<Rightarrow> 'a \<Rightarrow> int \<Rightarrow> int" where
  "indexOfFrom [] x k = - 1"
| "indexOfFrom (y # ys) x k = (if y = x then k else indexOfFrom ys x (k + 1))"

definition indexOf :: "'a list \<Rightarrow> 'a \<Rightarrow> int" where
  "indexOf xs x = indexOfFrom xs x 0"

text \<open>
  What \<open>App\<close> renders below the search box: the "No results" paragraph when
  \<open>shown\<close> is empty, otherwise one \<open>Card\<close> element per shown entry, with its React
  key \<open>s.id\<close>, the entry \<open>s\<close> and the number \<open>n = SECTIONS.indexOf(s) + 1\<close>.
\<close>

datatype view = NoResults jsstring | Cards "(jsstring \<times> topic \<times> int) list"

definition render :: "(jsstring \<Rightarrow> jsstring) \<Rightarrow> jsstring \<Rightarrow> view" where
  "render lower q =
     (if length (shown lower q) = 0 then NoResults q
      else Cards (map (\<lambda>s. (id' s, s, indexOf SECTIONS s + 1)) (shown lower q)))"

fun card_elements :: "view \<Rightarrow> (jsstring \<times> topic \<times> int) list" where
  "card_elements (NoResults q) = []"
| "card_elements (Cards cs) = cs"

section \<open>Component state\<close>

text \<open>
  \<open>CopyBtn\<close> holds \<open>ok\<close> (\<open>useState(false)\<close>); \<open>inst\<close> names the mounted instance,
  so that a pending timer callback reaches the instance whose \<open>setOk\<close> it closed over
  and no other. \<open>Card\<close> holds \<open>open\<close> (\<open>useState(false)\<close>) and renders its
  \<open>CopyBtn\<close> child only while open.
\<close>

record copy_btn =
  inst :: nat
  ok :: bool

record card_state =
  open_card :: bool
  copyBtn :: "copy_btn option"

definition new_card :: card_state where
  "new_card = \<lparr> open_card = False, copyBtn = None \<rparr>"

datatype js_error = TypeError | NotAllowedError

text \<open>
  The state of the page: the query \<open>q\<close> of \<open>App\<close>, the mounted \<open>Card\<close> components by
  React key, the callbacks registered with \<open>setTimeout\<close> that have not run yet (due
  time in milliseconds and the \<open>CopyBtn\<close> instance they reset), the time, the next
  unused instance number, and the errors that reached the host without a handler.
\<close>

record app =
  q_app :: jsstring
  cards :: "jsstring \<rightharpoonup> card_state"
  timers :: "(nat \<times> nat) list"
  clock :: nat
  fresh :: nat
  uncaught :: "js_error list"

text \<open>
  React's reconciliation of the children of the list container: a \<open>Card\<close> element
  whose key is mounted keeps its component and state, a key that is not mounted gets a
  new component in its initial state, and mounted components whose key is not
  rendered are unmounted and their state is discarded.
\<close>

definition reconcile :: "(jsstring \<rightharpoonup> card_state) \<Rightarrow> view \<Rightarrow> (jsstring \<rightharpoonup> card_state)" where
  "reconcile old v =
     map_of (map (\<lambda>(k, s, n). (k, case old k of Some c \<Rightarrow> c | None \<Rightarrow> new_card))
       (card_elements v))"

definition init :: "(jsstring \<Rightarrow> jsstring) \<Rightarrow> app" where
  "init lower =
     \<lparr> q_app = [], cards = reconcile Map.empty (render lower []), timers = [],
       clock = 0, fresh = 0, uncaught = [] \<rparr>"

text \<open>\<open>setQ(v)\<close>, from the input's \<open>onChange\<close> or the clear button, and the re-render.\<close>

definition setQ :: "(jsstring \<Rightarrow> jsstring) \<Rightarrow> jsstring \<Rightarrow> app \<Rightarrow> app" where
  "setQ lower v st = st\<lparr> q_app := v, cards := reconcile (cards st) (render lower v) \<rparr>"

text \<open>
  The header button of the card with key \<open>k\<close>: \<open>setOpen(o => !o)\<close>. Closing unmounts
  the \<open>CopyBtn\<close>; opening mounts a new one with \<open>ok = false\<close>. A card that is not
  mounted has no button to click.
\<close>

definition toggle :: "jsstring \<Rightarrow> app \<Rightarrow> app" where
  "toggle k st =
     (case cards st k of
        None \<Rightarrow> st
      | Some c \<Rightarrow>
          if open_card c
          then st\<lparr> cards := (cards st)(k \<mapsto> \<lparr> open_card = False, copyBtn = None \<rparr>) \<rparr>
          else st\<lparr> cards := (cards st)(k \<mapsto>
                      \<lparr> open_card = True, copyBtn = Some \<lparr> inst = fresh st, ok = False \<rparr> \<rparr>),
                    fresh := Suc (fresh st) \<rparr>)"

text \<open>
  The host's clipboard: \<open>navigator.clipboard\<close> is undefined (an insecure context or an
  old browser), or \<open>writeText\<close> returns a promise that is rejected (permission denied)
  or fulfilled. Reading \<open>writeText\<close> of undefined throws a TypeError.
\<close>

datatype clipboard = Unsupported | Denied | Granted

datatype promise = Fulfilled | Rejected js_error

definition writeText :: "clipboard \<Rightarrow> js_error + promise" where
  "writeText env =
     (case env of
        Unsupported \<Rightarrow> Inl TypeError
      | Denied \<Rightarrow> Inr (Rejected NotAllowedError)
      | Granted \<Rightarrow> Inr Fulfilled)"

text \<open>
  The \<open>onClick\<close> of the \<open>CopyBtn\<close> of card \<open>k\<close>:
  \<^verbatim>\<open>navigator.clipboard.writeText(text); setOk(true); setTimeout(() => setOk(false), 1500);\<close>
  The promise is dropped: nothing awaits it and no rejection handler is attached, so a
  rejection goes to the host unhandled. \<open>Inl\<close> is an exception leaving the handler.
\<close>

definition copy_onClick :: "clipboard \<Rightarrow> jsstring \<Rightarrow> app \<Rightarrow> js_error + app" where
  "copy_onClick env k st =
     (case cards st k of
        None \<Rightarrow> Inr st
      | Some c \<Rightarrow>
          (case copyBtn c of
             None \<Rightarrow> Inr st
           | Some b \<Rightarrow>
               (case writeText env of
                  Inl e \<Rightarrow> Inl e
                | Inr p \<Rightarrow>
                    Inr (st\<lparr> cards := (cards st)(k \<mapsto> c\<lparr> copyBtn := Some (b\<lparr> ok := True \<rparr>) \<rparr>),
                             timers := timers st @ [(clock st + 1500, inst b)],
                             uncaught := (case p of
                                            Fulfilled \<Rightarrow> uncaught st
                                          | Rejected e \<Rightarrow> uncaught st @ [e]) \<rparr>))))"

text \<open>
  The timer callback \<open>() => setOk(false)\<close> for instance \<open>i\<close>: it resets that
  instance if it is still mounted and does nothing otherwise.
\<close>

definition setOk_false :: "nat \<Rightarrow> (jsstring \<rightharpoonup> card_state) \<Rightarrow> (jsstring \<rightharpoonup> card_state)" where
  "setOk_false i cs =
     (\<lambda>k. case cs k of
            None \<Rightarrow> None
          | Some c \<Rightarrow>
              (case copyBtn c of
                 None \<Rightarrow> Some c
               | Some b \<Rightarrow>
                   if inst b = i then Some (c\<lparr> copyBtn := Some (b\<lparr> ok := False \<rparr>) \<rparr>)
                   else Some c))"

fun fire :: "(nat \<times> nat) list \<Rightarrow> (jsstring \<rightharpoonup> card_state) \<Rightarrow> (jsstring \<rightharpoonup> card_state)" where
  "fire [] cs = cs"
| "fire ((t, i) # ts) cs = fire ts (setOk_false i cs)"

text \<open>\<open>d\<close> milliseconds pass: the callbacks that are due run, in the order registered.\<close>

definition advance :: "nat \<Rightarrow> app \<Rightarrow> app" where
  "advance d st =
     (let now = clock st + d in
      st\<lparr> clock := now,
          cards := fire (filter (\<lambda>(t, i). t \<le> now) (timers st)) (cards st),
          timers := filter (\<lambda>(t, i). \<not> t \<le> now) (timers st) \<rparr>)"

text \<open>
  The events of the page. An exception that leaves an event handler is reported to the
  host and the state stays as the handler left it before throwing.
\<close>

datatype event = SetQ jsstring | Toggle jsstring | Copy jsstring clipboard | Advance nat

fun step :: "(jsstring \<Rightarrow> jsstring) \<Rightarrow> app \<Rightarrow> event \<Rightarrow> app" where
  "step lower st (SetQ v) = setQ lower v st"
| "step lower st (Toggle k) = toggle k st"
| "step lower st (Copy k env) =
     (case copy_onClick env k st of
        Inl e \<Rightarrow> st\<lparr> uncaught := uncaught st @ [e] \<rparr>
      | Inr st' \<Rightarrow> st')"
| "step lower st (Advance d) = advance d st"

definition run :: "(jsstring \<Rightarrow> jsstring) \<Rightarrow> event list \<Rightarrow> app" where
  "run lower evs = foldl (step lower) (init lower) evs"

text \<open>What the user sees of card \<open>k\<close>: it is on the page, it is expanded, its button shows the tick.\<close>

definition mounted :: "app \<Rightarrow> jsstring \<Rightarrow> bool" where
  "mounted st k = (cards st k \<noteq> None)"

definition expanded :: "app \<Rightarrow> jsstring \<Rightarrow> bool" where
  "expanded st k = (case cards st k of None \<Rightarrow> False | Some c \<Rightarrow> open_card c)"

definition acknowledged :: "app \<Rightarrow> jsstring \<Rightarrow> bool" where
  "acknowledged st k =
     (case cards st k of
        None \<Rightarrow> False
      | Some c \<Rightarrow> (case copyBtn c of None \<Rightarrow> False | Some b \<Rightarrow> ok b))"

text \<open>
  The interactions that are not about card \<open>a\<close> and leave it on the page: a query
  that still shows its entry, a click on another card's header or copy button, and
  time passing.
\<close>

fun keeps :: "(jsstring \<Rightarrow> jsstring) \<Rightarrow> jsstring \<Rightarrow> event \<Rightarrow> bool" where
  "keeps lower a (SetQ v) = (a \<in> id' ` set (shown lower v))"
| "keeps lower a (Toggle k) = (k \<noteq> a)"
| "keeps lower a (Copy k env) = (k \<noteq> a)"
| "keeps lower a (Advance d) = True"

text \<open>
  Invariants of the page, for the proofs. \<open>instances_ok\<close>: the instance numbers of the
  mounted \<open>CopyBtn\<close> components are below \<open>fresh\<close> and differ from card to card.
  \<open>revert_pending T i a\<close>: while the button of card \<open>a\<close> shows the tick, it is the
  instance \<open>i\<close> and its reset is registered for the time \<open>T\<close>, which has not come.
  \<open>tick_held T i a\<close>: the button of card \<open>a\<close> is the instance \<open>i\<close>, it shows the tick,
  and no reset of \<open>i\<close> is registered for a time before \<open>T\<close>.
\<close>

definition instances_ok :: "app \<Rightarrow> bool" where
  "instances_ok s \<longleftrightarrow>
     (\<forall>k c b. cards s k = Some c \<longrightarrow> copyBtn c = Some b \<longrightarrow> inst b < fresh s) \<and>
     (\<forall>k k' c c' b b'. cards s k = Some c \<longrightarrow> copyBtn c = Some b \<longrightarrow>
        cards s k' = Some c' \<longrightarrow> copyBtn c' = Some b' \<longrightarrow> inst b = inst b' \<longrightarrow> k = k')"

definition revert_pending :: "nat \<Rightarrow> nat \<Rightarrow> jsstring \<Rightarrow> app \<Rightarrow> bool" where
  "revert_pending T i a s \<longleftrightarrow>
     (acknowledged s a \<longrightarrow>
        (\<exists>c b. cards s a = Some c \<and> copyBtn c = Some b \<and> inst b = i) \<and>
        (T, i) \<in> set (timers s) \<and> clock s < T)"

definition tick_held :: "nat \<Rightarrow> nat \<Rightarrow> jsstring \<Rightarrow> app \<Rightarrow> bool" where
  "tick_held T i a s \<longleftrightarrow>
     instances_ok s \<and>
     (\<exists>c b. cards s a = Some c \<and> copyBtn c = Some b \<and> inst b = i \<and> ok b) \<and>
     (\<forall>t. (t, i) \<in> set (timers s) \<longrightarrow> T \<le> t)"

section \<open>Facts about strings and the catalogue\<close>

lemma startsWith_iff: "startsWith s t \<longleftrightarrow> (\<exists>r. s = t @ r)"
  by (induction s t rule: startsWith.induct) auto

lemma includes_js_iff: "includes_js s t \<longleftrightarrow> (\<exists>p r. s = p @ t @ r)"
proof (induction s)
  case Nil
  show ?case by (simp add: startsWith_iff)
next
  case (Cons x s)
  show ?case
  proof
    assume "includes_js (x # s) t"
    then consider "startsWith (x # s) t" | "includes_js s t" by auto
    then show "\<exists>p r. x # s = p @ t @ r"
    proof cases
      case 1
      then obtain r where "x # s = t @ r" by (auto simp: startsWith_iff)
      then have "x # s = [] @ t @ r" by simp
      then show ?thesis by blast
    next
      case 2
      then obtain p r where "s = p @ t @ r" using Cons.IH by blast
      then have "x # s = (x # p) @ t @ r" by simp
      then show ?thesis by blast
    qed
  next
    assume "\<exists>p r. x # s = p @ t @ r"
    then obtain p r where eq: "x # s = p @ t @ r" by blast
    show "includes_js (x # s) t"
    proof (cases p)
      case Nil
      with eq have "startsWith (x # s) t" by (auto simp: startsWith_iff)
      then show ?thesis by simp
    next
      case (Cons y p')
      with eq have "s = p' @ t @ r" by simp
      then have "includes_js s t" using Cons.IH by blast
      then show ?thesis by simp
    qed
  qed
qed

lemma includes_js_empty: "includes_js s []"
  by (induction s) auto

lemma set_shown:
  "set (shown lower q) = {s \<in> set SECTIONS. matches lower (lower q) s}"
  by (simp add: shown_def Let_def)

lemma nat_of_char_lt:  "(of_char x :: nat) < 256" by simp

lemma word16_of_char: "(of_char x :: 16 word) = of_nat (of_char x)"
  by (simp only: of_nat_of_char)

lemma unat_of_char16: "unat (of_char x :: 16 word) = of_char x"
proof -
  have "unat (of_nat (of_char x) :: 16 word) = (of_char x) mod 2 ^ LENGTH(16)"
    by (rule unat_of_nat)
  also have "\<dots> = of_char x"
  proof (rule mod_less)
    have "(256::nat) < 2 ^ LENGTH(16)" by simp
    with nat_of_char_lt [of x] show "(of_char x :: nat) < 2 ^ LENGTH(16)" by (rule less_trans)
  qed
  finally show ?thesis by (simp only: of_nat_of_char)
qed

lemma of_char_word16_inj: "(of_char x :: 16 word) = of_char y \<longleftrightarrow> x = y"
proof
  assume eq: "(of_char x :: 16 word) = of_char y"
  then have "unat (of_char x :: 16 word) = unat (of_char y :: 16 word)" by (rule arg_cong)
  then have "(of_char x :: nat) = of_char y" by (simp only: unat_of_char16)
  then show "x = y" by (simp only: of_char_eq_iff)
next
  assume "x = y" then show "(of_char x :: 16 word) = of_char y" by (rule arg_cong)
qed
lemma utf16_eq_iff: "utf16 a = utf16 b \<longleftrightarrow> a = b"
proof -
  have "inj (of_char :: char \<Rightarrow> 16 word)"
    by (rule injI) (simp only: of_char_word16_inj)
  then have "inj (map (of_char :: char \<Rightarrow> 16 word))" by (rule inj_mapI)
  then show ?thesis unfolding utf16_def by (rule inj_eq)
qed

lemma ids_SECTIONS:
  "map id' SECTIONS =
     map utf16 [''fn-comp'', ''comp-patterns'', ''useState'', ''useEffect'', ''useRef'',
       ''useContext'', ''useReducer'', ''useCallback'', ''useMemo'', ''custom-hooks'',
       ''props-state'', ''loops'', ''events'', ''controlled'', ''forms'', ''lazy'', ''router'',
       ''perf'', ''error-boundaries'', ''interview'', ''temp-converter'', ''traffic-light'',
       ''mini-apps'']"
  by (simp add: SECTIONS_def sec_fn_comp_def sec_comp_patterns_def sec_useState_def
      sec_useEffect_def sec_useRef_def sec_useContext_def sec_useReducer_def
      sec_useCallback_def sec_useMemo_def sec_custom_hooks_def sec_props_state_def
      sec_loops_def sec_events_def sec_controlled_def sec_forms_def sec_lazy_def
      sec_router_def sec_perf_def sec_error_boundaries_def sec_interview_def
      sec_temp_converter_def sec_traffic_light_def sec_mini_apps_def)

lemma distinct_ids: "distinct (map id' SECTIONS)"
  unfolding ids_SECTIONS by (simp add: utf16_eq_iff)

lemma distinct_SECTIONS: "distinct SECTIONS"
  using distinct_ids by (rule distinct_map [THEN iffD1, THEN conjunct1])

lemma toLowerCase_Nil: "toLowerCase [] = []"
  by (simp add: toLowerCase_def)

lemma toLowerCaseUnit_idem: "toLowerCaseUnit (toLowerCaseUnit c) = toLowerCaseUnit c"
proof (cases "0x41 \<le> c \<and> c \<le> 0x5A")
  case True
  then have "unat c \<le> 90" by (simp add: word_le_nat_alt)
  then have "unat (c + 0x20) = unat c + 32" by (simp add: unat_word_ariths)
  moreover from True have "65 \<le> unat c" by (simp add: word_le_nat_alt)
  ultimately have "\<not> c + 0x20 \<le> 0x5A" by (simp add: word_le_nat_alt)
  with True show ?thesis by (simp add: toLowerCaseUnit_def)
next
  case False
  then show ?thesis by (simp add: toLowerCaseUnit_def)
qed
lemma toLowerCase_idem: "toLowerCase (toLowerCase s) = toLowerCase s"
  by (simp add: toLowerCase_def toLowerCaseUnit_idem)

lemma toLowerCase_utf16_USESTATE:
  "toLowerCase (utf16 ''USESTATE'') = utf16 ''usestate''"
  by (simp add: toLowerCase_def toLowerCaseUnit_def utf16_def)

lemma in_SECTIONS:
  "sec_useState \<in> set SECTIONS" "sec_useReducer \<in> set SECTIONS"
  "sec_useCallback \<in> set SECTIONS" "sec_useMemo \<in> set SECTIONS"
  "sec_interview \<in> set SECTIONS"
  by (simp_all add: SECTIONS_def)

text \<open>The catalogue entries the worked queries of the specification are about.\<close>

lemma useReducer_matches:
  "matches toLowerCase (toLowerCase (utf16 ''useReducer'')) sec_useReducer"
  by code_simp

lemma useState_no_useReducer:
  "\<not> matches toLowerCase (toLowerCase (utf16 ''useReducer'')) sec_useState"
  by code_simp

lemma useCallback_usememo:
  "matches toLowerCase (toLowerCase (utf16 ''usememo'')) sec_useCallback"
  by code_simp

lemma useMemo_usememo:
  "matches toLowerCase (toLowerCase (utf16 ''usememo'')) sec_useMemo"
  by code_simp

lemma interview_no_two_spaces:
  "\<not> matches toLowerCase (toLowerCase (utf16 ''  '')) sec_interview"
  by code_simp


lemma toLowerCase_utf16_usestate:
  "toLowerCase (utf16 ''usestate'') = utf16 ''usestate''"
  by (simp add: toLowerCase_def toLowerCaseUnit_def utf16_def)

lemma matches_iff:
  "matches lower lq s \<longleftrightarrow>
     (\<exists>p r. lower (label s) = p @ lq @ r) \<or>
     (\<exists>p r. lower (desc s) = p @ lq @ r) \<or>
     (\<exists>p r. lower (code s) = p @ lq @ r)"
  by (simp add: matches_def includes_js_iff)

lemma shown_Nil: "lower [] = [] \<Longrightarrow> shown lower [] = SECTIONS"
  by (simp add: shown_def matches_def includes_js_empty)

lemma shown_lower_idem: "lower (lower q) = lower q \<Longrightarrow> shown lower (lower q) = shown lower q"
  by (simp add: shown_def)

lemma indexOfFrom_nth:
  "x \<in> set xs \<Longrightarrow>
     k \<le> indexOfFrom xs x k \<and> indexOfFrom xs x k < k + int (length xs) \<and>
     xs ! nat (indexOfFrom xs x k - k) = x"
proof (induction xs arbitrary: k)
  case Nil
  then show ?case by simp
next
  case (Cons y ys)
  show ?case
  proof (cases "y = x")
    case True
    then show ?thesis by simp
  next
    case False
    with Cons.prems have "x \<in> set ys" by simp
    from Cons.IH [OF this, of "k + 1"]
    have ih: "k + 1 \<le> indexOfFrom ys x (k + 1)"
      "indexOfFrom ys x (k + 1) < k + 1 + int (length ys)"
      "ys ! nat (indexOfFrom ys x (k + 1) - (k + 1)) = x" by auto
    have "nat (indexOfFrom ys x (k + 1) - k) = Suc (nat (indexOfFrom ys x (k + 1) - (k + 1)))"
      using ih(1) by simp
    with ih False show ?thesis by simp
  qed
qed

lemma indexOf_nth:
  assumes "x \<in> set xs"
  shows "0 \<le> indexOf xs x" "indexOf xs x < int (length xs)" "xs ! nat (indexOf xs x) = x"
  using indexOfFrom_nth [OF assms, of 0] by (simp_all add: indexOf_def)

lemma card_elements_render:
  "card_elements (render lower q) = map (\<lambda>s. (id' s, s, indexOf SECTIONS s + 1)) (shown lower q)"
  by (simp add: render_def)

lemma in_card_elements:
  "(k, s, n) \<in> set (card_elements (render lower q)) \<longleftrightarrow>
     s \<in> set (shown lower q) \<and> k = id' s \<and> n = indexOf SECTIONS s + 1"
  by (auto simp: card_elements_render)

lemma includes_js_single: "x \<in> set s \<Longrightarrow> includes_js s [x]"
proof -
  assume "x \<in> set s"
  then obtain p r where "s = p @ x # r" by (auto dest: split_list)
  then have "s = p @ [x] @ r" by simp
  then show ?thesis unfolding includes_js_iff by blast
qed

lemma of_char_space: "(of_char (CHR '' '') :: 16 word) = 0x20"
  by simp

lemma of_char_eq_space: "(of_char c :: 16 word) = 0x20 \<longleftrightarrow> c = CHR '' ''"
proof -
  have "(of_char c :: 16 word) = of_char (CHR '' '') \<longleftrightarrow> c = CHR '' ''"
    by (rule of_char_word16_inj)
  then show ?thesis by (simp only: of_char_space)
qed

lemma space_in_utf16: "(0x20 \<in> set (utf16 cs)) = (CHR '' '' \<in> set cs)"
proof
  assume "0x20 \<in> set (utf16 cs)"
  then obtain c where "c \<in> set cs" "(of_char c :: 16 word) = 0x20"
    unfolding utf16_def set_map by (auto simp only: image_iff)
  then show "CHR '' '' \<in> set cs" by (simp only: of_char_eq_space)
next
  assume "CHR '' '' \<in> set cs"
  then have "(of_char (CHR '' '') :: 16 word) \<in> of_char ` set cs" by (rule imageI)
  then show "0x20 \<in> set (utf16 cs)" unfolding utf16_def set_map of_char_space .
qed

lemma toLowerCaseUnit_space: "toLowerCaseUnit 0x20 = 0x20"
  by (simp add: toLowerCaseUnit_def)

lemma space_in_toLowerCase: "0x20 \<in> set s \<Longrightarrow> 0x20 \<in> set (toLowerCase s)"
proof -
  assume "0x20 \<in> set s"
  then have "toLowerCaseUnit 0x20 \<in> toLowerCaseUnit ` set s" by (rule imageI)
  then show ?thesis unfolding toLowerCase_def set_map toLowerCaseUnit_space .
qed

lemma toLowerCase_space: "toLowerCase (utf16 '' '') = [0x20]"
  by (simp add: toLowerCase_def toLowerCaseUnit_def utf16_def)

lemma desc_space_matches: "0x20 \<in> set (desc s) \<Longrightarrow> matches toLowerCase [0x20] s"
  by (simp add: matches_def includes_js_single space_in_toLowerCase)

lemma desc_has_space: "\<forall>s \<in> set SECTIONS. 0x20 \<in> set (desc s)"
  by (simp add: SECTIONS_def space_in_utf16 sec_fn_comp_def sec_comp_patterns_def
      sec_useState_def sec_useEffect_def sec_useRef_def sec_useContext_def sec_useReducer_def
      sec_useCallback_def sec_useMemo_def sec_custom_hooks_def sec_props_state_def
      sec_loops_def sec_events_def sec_controlled_def sec_forms_def sec_lazy_def
      sec_router_def sec_perf_def sec_error_boundaries_def sec_interview_def
      sec_temp_converter_def sec_traffic_light_def sec_mini_apps_def)

lemma shown_space: "shown toLowerCase (utf16 '' '') = SECTIONS"
  using desc_has_space by (simp add: shown_def toLowerCase_space desc_space_matches)

section \<open>The filter: claims\<close>

text \<open>
  \<^bold>\<open>C1.\<close> For every query \<open>q\<close> and every entry \<open>e\<close>: \<open>e\<close> is shown exactly when it
  is an entry of the catalogue and the lowercased query occurs as a contiguous
  substring of its lowercased label, description or code. The \<open>id\<close> and the note
  play no role: changing them does not change whether the entry matches. The filter is
  a total function, for any case mapping of the host.
\<close>
theorem shown_iff_substring:
  "(e \<in> set (shown lower q) \<longleftrightarrow>
      e \<in> set SECTIONS \<and>
      ((\<exists>p r. lower (label e) = p @ lower q @ r) \<or>
       (\<exists>p r. lower (desc e) = p @ lower q @ r) \<or>
       (\<exists>p r. lower (code e) = p @ lower q @ r))) \<and>
   matches lower lq (e\<lparr> id' := i, note' := n \<rparr>) = matches lower lq e"
  by (simp add: set_shown matches_iff)

theorem shown_iff_substring_witness:
  "sec_useReducer \<in> set (shown toLowerCase (utf16 ''useReducer''))"
proof -
  have "label sec_useReducer = utf16 ''useReducer''"
    by (simp add: sec_useReducer_def)
  then have "toLowerCase (label sec_useReducer) = [] @ toLowerCase (utf16 ''useReducer'') @ []"
    by simp
  then have "\<exists>p r. toLowerCase (label sec_useReducer) = p @ toLowerCase (utf16 ''useReducer'') @ r"
    by blast
  with in_SECTIONS(2) show ?thesis
    using shown_iff_substring [of sec_useReducer toLowerCase "utf16 ''useReducer''"]
    by blast
qed

text \<open>
  \<^bold>\<open>C2, as stated, fails.\<close> The filter does not trim the query. A query of two spaces is matched
  literally and leaves out the entry "Interview Essentials", which has no two
  consecutive spaces in its label, description or code.
\<close>

theorem whitespace_query_counterexample:
  "shown toLowerCase (utf16 ''  '') \<noteq> SECTIONS"
proof
  assume "shown toLowerCase (utf16 ''  '') = SECTIONS"
  then have "sec_interview \<in> set (shown toLowerCase (utf16 ''  ''))"
    using in_SECTIONS(5) by simp
  then show False
    using interview_no_two_spaces by (simp add: set_shown)
qed

text \<open>
  \<^bold>\<open>C2, as the code has it.\<close> The empty query shows the whole catalogue, every entry
  of \<open>SECTIONS\<close> in the original order, and so does the query of one space, since
  every description in the catalogue has a space.
\<close>

theorem empty_and_space_query_show_all:
  "(lower [] = [] \<longrightarrow> shown lower [] = SECTIONS) \<and>
   shown toLowerCase (utf16 '' '') = SECTIONS"
  using shown_Nil [of lower] shown_space by simp

theorem empty_and_space_query_show_all_witness:
  "toLowerCase [] = [] \<and> shown toLowerCase [] = SECTIONS"
  using empty_and_space_query_show_all [of toLowerCase] by (simp add: toLowerCase_Nil)

text \<open>
  \<^bold>\<open>C5.\<close> For every query the shown list is a subsequence of \<open>SECTIONS\<close> in the
  catalogue's order, without duplicates and without entries from outside it.
\<close>
theorem shown_subseq:
  "subseq (shown lower q) SECTIONS \<and> distinct (shown lower q) \<and>
   set (shown lower q) \<subseteq> set SECTIONS"
  by (simp add: shown_def Let_def distinct_SECTIONS)

theorem shown_subseq_witness:
  "subseq (shown toLowerCase (utf16 ''usestate'')) SECTIONS \<and>
   distinct (shown toLowerCase (utf16 ''usestate'')) \<and>
   set (shown toLowerCase (utf16 ''usestate'')) \<subseteq> set SECTIONS"
  by (rule shown_subseq)

text \<open>
  \<^bold>\<open>C6.\<close> Filtering is case-insensitive: the query and its lowercase form show the
  same list, for every case mapping that leaves a lowercased string as it is, as
  \<open>toLowerCase\<close> does; in particular for "USESTATE" and "usestate".
\<close>
theorem shown_case_insensitive:
  "(lower (lower q) = lower q \<longrightarrow> shown lower (lower q) = shown lower q) \<and>
   shown toLowerCase (toLowerCase q) = shown toLowerCase q \<and>
   shown toLowerCase (utf16 ''USESTATE'') = shown toLowerCase (utf16 ''usestate'')"
proof (intro conjI impI)
  show "shown toLowerCase (utf16 ''USESTATE'') = shown toLowerCase (utf16 ''usestate'')"
    by (simp add: shown_def toLowerCase_utf16_USESTATE toLowerCase_utf16_usestate)
qed (simp_all add: shown_lower_idem toLowerCase_idem)

theorem shown_case_insensitive_witness:
  "toLowerCase (toLowerCase (utf16 ''USESTATE'')) = toLowerCase (utf16 ''USESTATE'') \<and>
   shown toLowerCase (toLowerCase (utf16 ''USESTATE'')) = shown toLowerCase (utf16 ''USESTATE'')"
  using shown_case_insensitive [of toLowerCase "utf16 ''USESTATE''"]
  by (simp add: toLowerCase_idem)

text \<open>
  \<^bold>\<open>C9.\<close> On the catalogue of the source: the query "useReducer" shows the entry
  useReducer and not the entry useState; the query "usememo" shows the entry
  useCallback, whose code mentions useMemo, and the entry useMemo.
\<close>
theorem catalogue_queries:
  "sec_useReducer \<in> set (shown toLowerCase (utf16 ''useReducer'')) \<and>
   sec_useState \<notin> set (shown toLowerCase (utf16 ''useReducer'')) \<and>
   sec_useCallback \<in> set (shown toLowerCase (utf16 ''usememo'')) \<and>
   sec_useMemo \<in> set (shown toLowerCase (utf16 ''usememo''))"
  by (simp add: set_shown in_SECTIONS useReducer_matches useState_no_useReducer
      useCallback_usememo useMemo_usememo)

theorem catalogue_queries_witness:
  "sec_useState \<noteq> sec_useReducer"
proof
  assume eq: "sec_useState = sec_useReducer"
  from catalogue_queries
  have a: "sec_useReducer \<in> set (shown toLowerCase (utf16 ''useReducer''))"
    and b: "sec_useState \<notin> set (shown toLowerCase (utf16 ''useReducer''))"
    by (rule conjunct1, rule conjunct2 [THEN conjunct1])
  from b have "sec_useReducer \<notin> set (shown toLowerCase (utf16 ''useReducer''))"
    unfolding eq .
  then show False using a by (rule notE)
qed

text \<open>
  \<^bold>\<open>C10.\<close> The number on a rendered card is one plus the entry's index in
  \<open>SECTIONS\<close>, the only index at which the entry stands, and it is the same under
  every query that shows the entry.
\<close>
theorem card_number:
  assumes "(k, s, n) \<in> set (card_elements (render lower q))"
  shows "1 \<le> n \<and> n \<le> int (length SECTIONS) \<and> SECTIONS ! nat (n - 1) = s \<and>
         (\<forall>j < length SECTIONS. SECTIONS ! j = s \<longrightarrow> n = int j + 1) \<and>
         (\<forall>q' k' n'. (k', s, n') \<in> set (card_elements (render lower q')) \<longrightarrow> n' = n)"
proof -
  from assms have s: "s \<in> set SECTIONS" and n: "n = indexOf SECTIONS s + 1"
    by (auto simp: in_card_elements set_shown)
  note ix = indexOf_nth [OF s]
  have uniq: "n = int j + 1" if "j < length SECTIONS" "SECTIONS ! j = s" for j
  proof -
    have "nat (indexOf SECTIONS s) < length SECTIONS" using ix by simp
    moreover have "SECTIONS ! j = SECTIONS ! nat (indexOf SECTIONS s)"
      using that(2) ix(3) by simp
    ultimately have "j = nat (indexOf SECTIONS s)"
      using that(1) nth_eq_iff_index_eq [OF distinct_SECTIONS] by blast
    with ix(1) n show ?thesis by simp
  qed
  have "nat (n - 1) = nat (indexOf SECTIONS s)" using n by simp
  with ix n uniq show ?thesis by (auto simp: in_card_elements)
qed

theorem card_number_witness:
  "(id' sec_useReducer, sec_useReducer, indexOf SECTIONS sec_useReducer + 1)
      \<in> set (card_elements (render toLowerCase (utf16 ''useReducer''))) \<and>
   SECTIONS ! nat (indexOf SECTIONS sec_useReducer + 1 - 1) = sec_useReducer"
proof -
  have m: "(id' sec_useReducer, sec_useReducer, indexOf SECTIONS sec_useReducer + 1)
      \<in> set (card_elements (render toLowerCase (utf16 ''useReducer'')))"
    by (simp add: in_card_elements set_shown in_SECTIONS useReducer_matches)
  from card_number [OF m] m show ?thesis by blast
qed

section \<open>Component state: facts and claims\<close>

lemma map_of_keyed:
  "map_of (map (\<lambda>(k, s, n). (k, g k)) xs) k =
     (if k \<in> fst ` set xs then Some (g k) else None)"
  by (induction xs) (auto split: prod.splits)

lemma keys_render: "fst ` set (card_elements (render lower q)) = id' ` set (shown lower q)"
  by (force simp: card_elements_render)

lemma reconcile_apply:
  "reconcile old (render lower v) k =
     (if k \<in> id' ` set (shown lower v)
      then Some (case old k of Some c \<Rightarrow> c | None \<Rightarrow> new_card) else None)"
  unfolding reconcile_def map_of_keyed keys_render by (rule refl)

lemma cards_setQ:
  "cards (setQ lower v st) k =
     (if k \<in> id' ` set (shown lower v)
      then Some (case cards st k of Some c \<Rightarrow> c | None \<Rightarrow> new_card) else None)"
  by (simp add: setQ_def reconcile_apply)

lemma cards_init:
  "cards (init lower) k = (if k \<in> id' ` set (shown lower []) then Some new_card else None)"
  by (simp add: init_def reconcile_apply)

lemma cards_toggle_other: "b \<noteq> a \<Longrightarrow> cards (toggle a st) b = cards st b"
  by (simp add: toggle_def split: option.splits)

lemma cards_toggle_same:
  "cards st a = Some c \<Longrightarrow>
   cards (toggle a st) a =
     Some (if open_card c then \<lparr> open_card = False, copyBtn = None \<rparr>
           else \<lparr> open_card = True, copyBtn = Some \<lparr> inst = fresh st, ok = False \<rparr> \<rparr>)"
  by (simp add: toggle_def)

lemma id_inj_SECTIONS:
  "s \<in> set SECTIONS \<Longrightarrow> t \<in> set SECTIONS \<Longrightarrow> id' s = id' t \<Longrightarrow> s = t"
  using distinct_ids by (auto simp: distinct_map dest: inj_onD)

lemma id_useState: "id' sec_useState = utf16 ''useState''"
  by (simp add: sec_useState_def)

lemma useState_visible_empty: "utf16 ''useState'' \<in> id' ` set (shown toLowerCase [])"
  using in_SECTIONS(1) id_useState by (force simp: shown_Nil toLowerCase_Nil)

lemma useState_hidden_useReducer:
  "utf16 ''useState'' \<notin> id' ` set (shown toLowerCase (utf16 ''useReducer''))"
proof
  assume "utf16 ''useState'' \<in> id' ` set (shown toLowerCase (utf16 ''useReducer''))"
  then obtain s where s: "s \<in> set SECTIONS"
    "matches toLowerCase (toLowerCase (utf16 ''useReducer'')) s" "id' s = id' sec_useState"
    by (auto simp: set_shown id_useState)
  from s(1) in_SECTIONS(1) s(3) have "s = sec_useState" by (rule id_inj_SECTIONS)
  with s(2) useState_no_useReducer show False by simp
qed

lemma run_Nil: "run lower [] = init lower"
  by (simp add: run_def)

lemma run_snoc: "run lower (evs @ [e]) = step lower (run lower evs) e"
  by (simp add: run_def)

lemma run_Toggle_useState:
  "cards (run toLowerCase [Toggle (utf16 ''useState'')]) (utf16 ''useState'') =
     Some \<lparr> open_card = True, copyBtn = Some \<lparr> inst = 0, ok = False \<rparr> \<rparr>"
proof -
  have "cards (init toLowerCase) (utf16 ''useState'') = Some new_card"
    by (simp add: cards_init useState_visible_empty)
  then show ?thesis
    using run_snoc [of toLowerCase "[]" "Toggle (utf16 ''useState'')"]
    by (simp add: run_Nil cards_toggle_same new_card_def) (simp add: init_def)
qed

text \<open>
  \<^bold>\<open>C3, as stated, fails.\<close> Expand the card useState, type "useReducer" (the card
  leaves the page), clear the query: the card is back and it is collapsed. The \<open>open\<close>
  flag lives in the \<open>Card\<close> component, which is unmounted when its entry is filtered
  out.
\<close>
theorem expansion_lost_counterexample:
  "expanded (run toLowerCase [Toggle (utf16 ''useState'')]) (utf16 ''useState'') \<and>
   \<not> mounted (run toLowerCase
        [Toggle (utf16 ''useState''), SetQ (utf16 ''useReducer'')]) (utf16 ''useState'') \<and>
   mounted (run toLowerCase
        [Toggle (utf16 ''useState''), SetQ (utf16 ''useReducer''), SetQ []]) (utf16 ''useState'') \<and>
   \<not> expanded (run toLowerCase
        [Toggle (utf16 ''useState''), SetQ (utf16 ''useReducer''), SetQ []]) (utf16 ''useState'')"
proof -
  let ?E = "utf16 ''useState''" and ?U = "utf16 ''useReducer''"
  let ?s1 = "run toLowerCase [Toggle ?E]"
  have r2: "run toLowerCase [Toggle ?E, SetQ ?U] = setQ toLowerCase ?U ?s1"
    using run_snoc [of toLowerCase "[Toggle ?E]" "SetQ ?U"] by simp
  have r3: "run toLowerCase [Toggle ?E, SetQ ?U, SetQ []] =
      setQ toLowerCase [] (setQ toLowerCase ?U ?s1)"
    using run_snoc [of toLowerCase "[Toggle ?E, SetQ ?U]" "SetQ []"] r2 by simp
  have c2: "cards (setQ toLowerCase ?U ?s1) ?E = None"
    by (simp add: cards_setQ useState_hidden_useReducer)
  have c3: "cards (setQ toLowerCase [] (setQ toLowerCase ?U ?s1)) ?E = Some new_card"
    by (simp add: cards_setQ [of toLowerCase "[]"] useState_visible_empty c2)
  show ?thesis
    unfolding r2 r3
    by (simp add: expanded_def mounted_def run_Toggle_useState c2 c3 new_card_def)
qed

text \<open>
  \<^bold>\<open>C3, as the code has it.\<close> A query change keeps the state of a card whose entry
  is shown before and after it. A card whose entry is not shown is unmounted, and when
  a later query shows the entry again its card is new: collapsed, whatever it was
  before.
\<close>
theorem expansion_across_filtering:
  "(k \<in> id' ` set (shown lower v) \<longrightarrow> cards st k = Some c \<longrightarrow>
      cards (setQ lower v st) k = Some c) \<and>
   (k \<notin> id' ` set (shown lower v) \<longrightarrow> cards (setQ lower v st) k = None) \<and>
   (k \<notin> id' ` set (shown lower v) \<longrightarrow> k \<in> id' ` set (shown lower w) \<longrightarrow>
      cards (setQ lower w (setQ lower v st)) k = Some new_card \<and>
      \<not> expanded (setQ lower w (setQ lower v st)) k)"
  by (simp add: cards_setQ expanded_def new_card_def)

theorem expansion_across_filtering_witness:
  "utf16 ''useState'' \<notin> id' ` set (shown toLowerCase (utf16 ''useReducer'')) \<and>
   utf16 ''useState'' \<in> id' ` set (shown toLowerCase []) \<and>
   \<not> expanded (setQ toLowerCase [] (setQ toLowerCase (utf16 ''useReducer'')
        (run toLowerCase [Toggle (utf16 ''useState'')]))) (utf16 ''useState'')"
  using expansion_across_filtering [of "utf16 ''useState''" toLowerCase "utf16 ''useReducer''"
      "run toLowerCase [Toggle (utf16 ''useState'')]" _ "[]"]
    useState_hidden_useReducer useState_visible_empty
  by simp

lemma expanded_toggle_other: "b \<noteq> a \<Longrightarrow> expanded (toggle a st) b = expanded st b"
  by (simp add: expanded_def cards_toggle_other)

lemma expanded_toggle_same:
  "cards st a = Some c \<Longrightarrow> expanded (toggle a st) a = (\<not> open_card c)"
  by (simp add: expanded_def cards_toggle_same)

lemma dom_cards_toggle: "dom (cards (toggle a st)) = dom (cards st)"
  by (auto simp: toggle_def split: option.splits if_splits)

lemma not_expanded_init: "\<not> expanded (init lower) k"
  by (simp add: expanded_def cards_init new_card_def)

lemma expanded_toggles:
  "distinct ks \<Longrightarrow> set ks \<subseteq> dom (cards st) \<Longrightarrow> set ks \<inter> {k. expanded st k} = {} \<Longrightarrow>
   {k. expanded (foldl (step lower) st (map Toggle ks)) k} = {k. expanded st k} \<union> set ks"
proof (induction ks arbitrary: st)
  case Nil
  then show ?case by simp
next
  case (Cons a ks)
  from Cons.prems obtain c where c: "cards st a = Some c" by auto
  from Cons.prems c have closed: "\<not> open_card c" by (auto simp: expanded_def)
  have ex: "{k. expanded (toggle a st) k} = insert a {k. expanded st k}"
  proof (rule set_eqI)
    fix x
    have "expanded (toggle a st) a" using expanded_toggle_same [OF c] closed by simp
    then show "x \<in> {k. expanded (toggle a st) k} \<longleftrightarrow> x \<in> insert a {k. expanded st k}"
      by (cases "x = a") (simp_all add: expanded_toggle_other)
  qed
  have "{k. expanded (foldl (step lower) (toggle a st) (map Toggle ks)) k} =
      {k. expanded (toggle a st) k} \<union> set ks"
  proof (rule Cons.IH)
    show "distinct ks" using Cons.prems by simp
    show "set ks \<subseteq> dom (cards (toggle a st))" using Cons.prems by (simp add: dom_cards_toggle)
    show "set ks \<inter> {k. expanded (toggle a st) k} = {}" using Cons.prems ex by auto
  qed
  with ex show ?case by simp
qed

text \<open>
  \<^bold>\<open>C7.\<close> Toggling card \<open>a\<close> leaves the state of every other card \<open>b\<close> as it
  is and flips the flag of \<open>a\<close>; initially no card is expanded; and toggling any
  list of different cards of the initial page leaves exactly those expanded, all at
  once.
\<close>
theorem toggle_frame:
  "(b \<noteq> a \<longrightarrow> cards (toggle a st) b = cards st b) \<and>
   (cards st a = Some c \<longrightarrow> expanded (toggle a st) a = (\<not> expanded st a)) \<and>
   \<not> expanded (init lower) k \<and>
   (distinct ks \<longrightarrow> set ks \<subseteq> dom (cards (init lower)) \<longrightarrow>
      {k. expanded (run lower (map Toggle ks)) k} = set ks)"
proof (intro conjI impI)
  assume "distinct ks" "set ks \<subseteq> dom (cards (init lower))"
  then show "{k. expanded (run lower (map Toggle ks)) k} = set ks"
    unfolding run_def
    using expanded_toggles [of ks "init lower" lower] by (simp add: not_expanded_init)
next
  assume "cards st a = Some c"
  then show "expanded (toggle a st) a = (\<not> expanded st a)"
    by (simp add: expanded_toggle_same) (simp add: expanded_def)
qed (simp_all add: cards_toggle_other not_expanded_init)

lemma id_useRef: "id' sec_useRef = utf16 ''useRef''"
  by (simp add: sec_useRef_def)

lemma useRef_visible_empty: "utf16 ''useRef'' \<in> id' ` set (shown toLowerCase [])"
proof -
  have "sec_useRef \<in> set SECTIONS" by (simp add: SECTIONS_def)
  then show ?thesis using id_useRef by (force simp: shown_Nil toLowerCase_Nil)
qed

theorem toggle_frame_witness:
  "utf16 ''useRef'' \<noteq> utf16 ''useState'' \<and>
   cards (toggle (utf16 ''useState'') (init toLowerCase)) (utf16 ''useRef'') =
     cards (init toLowerCase) (utf16 ''useRef'') \<and>
   expanded (toggle (utf16 ''useState'') (init toLowerCase)) (utf16 ''useState'') \<and>
   {k. expanded (run toLowerCase (map Toggle [utf16 ''useState'', utf16 ''useRef''])) k} =
     set [utf16 ''useState'', utf16 ''useRef'']"
proof -
  have ne: "utf16 ''useRef'' \<noteq> utf16 ''useState''" by (simp add: utf16_eq_iff)
  have c: "cards (init toLowerCase) (utf16 ''useState'') = Some new_card"
    by (simp add: cards_init useState_visible_empty)
  have d: "distinct [utf16 ''useState'', utf16 ''useRef'']" using ne by simp
  have m: "set [utf16 ''useState'', utf16 ''useRef''] \<subseteq> dom (cards (init toLowerCase))"
    by (simp add: cards_init useState_visible_empty useRef_visible_empty dom_def)
  from toggle_frame [of "utf16 ''useRef''" "utf16 ''useState''" "init toLowerCase" new_card
      toLowerCase "utf16 ''useState''" "[utf16 ''useState'', utf16 ''useRef'']"] ne c d m
  show ?thesis by blast
qed

lemma copy_onClick_mounted:
  "cards st k = Some c \<Longrightarrow> copyBtn c = Some b \<Longrightarrow>
   copy_onClick env k st =
     (case writeText env of
        Inl e \<Rightarrow> Inl e
      | Inr p \<Rightarrow>
          Inr (st\<lparr> cards := (cards st)(k \<mapsto> c\<lparr> copyBtn := Some (b\<lparr> ok := True \<rparr>) \<rparr>),
                   timers := timers st @ [(clock st + 1500, inst b)],
                   uncaught := (case p of
                                  Fulfilled \<Rightarrow> uncaught st
                                | Rejected e \<Rightarrow> uncaught st @ [e]) \<rparr>))"
  by (simp add: copy_onClick_def)

text \<open>
  \<^bold>\<open>C4, as stated, fails.\<close> With \<open>navigator.clipboard\<close> undefined the handler
  throws a TypeError that nothing catches; with the write rejected the rejection
  reaches the host unhandled.
\<close>
theorem copy_failure_counterexample:
  "copy_onClick Unsupported (utf16 ''useState'') (run toLowerCase [Toggle (utf16 ''useState'')])
     = Inl TypeError \<and>
   uncaught (step toLowerCase (run toLowerCase [Toggle (utf16 ''useState'')])
      (Copy (utf16 ''useState'') Denied)) = [NotAllowedError]"
proof -
  have u: "uncaught (run toLowerCase [Toggle (utf16 ''useState'')]) = []"
    using run_snoc [of toLowerCase "[]" "Toggle (utf16 ''useState'')"]
    by (simp add: run_Nil toggle_def init_def split: option.splits)
  show ?thesis
    using copy_onClick_mounted [OF run_Toggle_useState, of _ Unsupported]
      copy_onClick_mounted [OF run_Toggle_useState, of _ Denied] u
    by (simp add: writeText_def)
qed

text \<open>
  \<^bold>\<open>C4, as the code has it.\<close> The copy handler has no failure path. Without a
  clipboard it throws a TypeError before any state change. When the write is rejected
  no exception leaves the handler: it shows the acknowledgment and schedules the
  revert exactly as on success, and the rejection is left unhandled.
\<close>
theorem copy_failure:
  assumes "cards st k = Some c" and "copyBtn c = Some b"
  shows "copy_onClick Unsupported k st = Inl TypeError \<and>
         (\<exists>st'. copy_onClick Denied k st = Inr st' \<and> acknowledged st' k \<and>
            timers st' = timers st @ [(clock st + 1500, inst b)] \<and>
            uncaught st' = uncaught st @ [NotAllowedError]) \<and>
         (\<exists>st'. copy_onClick Granted k st = Inr st' \<and> acknowledged st' k \<and>
            timers st' = timers st @ [(clock st + 1500, inst b)] \<and>
            uncaught st' = uncaught st)"
  using assms by (simp add: copy_onClick_mounted writeText_def acknowledged_def)

theorem copy_failure_witness:
  "\<exists>st'. copy_onClick Denied (utf16 ''useState'') (run toLowerCase [Toggle (utf16 ''useState'')])
      = Inr st' \<and> acknowledged st' (utf16 ''useState'') \<and>
     uncaught st' = uncaught (run toLowerCase [Toggle (utf16 ''useState'')]) @ [NotAllowedError]"
  using copy_failure [OF run_Toggle_useState, of "\<lparr> inst = 0, ok = False \<rparr>"]
  by auto

section \<open>The acknowledgment and its timer\<close>

lemma fire_apply:
  "fire ts cs k =
     (case cs k of
        None \<Rightarrow> None
      | Some c \<Rightarrow>
          (case copyBtn c of
             None \<Rightarrow> Some c
           | Some b \<Rightarrow>
               if inst b \<in> snd ` set ts then Some (c\<lparr> copyBtn := Some (b\<lparr> ok := False \<rparr>) \<rparr>)
               else Some c))"
proof (induction ts arbitrary: cs)
  case Nil
  show ?case by (simp split: option.splits)
next
  case (Cons p ts)
  obtain t i where p: "p = (t, i)" by (cases p)
  show ?case
    unfolding p fire.simps Cons.IH
    by (simp add: setOk_false_def split: option.splits)
qed

lemma acknowledged_cases:
  "acknowledged s k \<longleftrightarrow> (\<exists>c b. cards s k = Some c \<and> copyBtn c = Some b \<and> ok b)"
  by (simp add: acknowledged_def split: option.splits)

lemma clock_step:
  "clock (step lower s e) = clock s + (case e of Advance d \<Rightarrow> d | _ \<Rightarrow> 0)"
  by (cases e)
    (simp_all add: setQ_def toggle_def copy_onClick_def advance_def Let_def writeText_def
      split: option.splits sum.splits clipboard.splits)

lemma clock_mono_step: "clock s \<le> clock (step lower s e)"
  by (simp add: clock_step)

lemma clock_mono_foldl: "clock s \<le> clock (foldl (step lower) s evs)"
proof (induction evs arbitrary: s)
  case Nil
  show ?case by simp
next
  case (Cons e evs)
  have "clock s \<le> clock (step lower s e)" by (rule clock_mono_step)
  also have "\<dots> \<le> clock (foldl (step lower) (step lower s e) evs)" by (rule Cons.IH)
  finally show ?case by simp
qed

lemma run_append: "run lower (evs @ evs') = foldl (step lower) (run lower evs) evs'"
  by (simp add: run_def)

lemma cards_step_Copy_other: "k \<noteq> a \<Longrightarrow> cards (step lower s (Copy k env)) a = cards s a"
  by (simp add: copy_onClick_def split: option.splits sum.splits)

lemma timers_step_Copy: "set (timers s) \<subseteq> set (timers (step lower s (Copy k env)))"
  by (auto simp: copy_onClick_def split: option.splits sum.splits)

lemma acknowledged_advance:
  assumes "acknowledged (advance d s) a"
  shows "\<exists>c b. cards s a = Some c \<and> copyBtn c = Some b \<and> ok b \<and>
           (\<forall>t. (t, inst b) \<in> set (timers s) \<longrightarrow> \<not> t \<le> clock s + d)"
  using assms
  by (auto simp: acknowledged_cases advance_def Let_def fire_apply image_iff
      split: option.splits if_splits)

lemma revert_pending_step:
  assumes J: "revert_pending T i a s" and ne: "\<forall>env. e \<noteq> Copy a env"
  shows "revert_pending T i a (step lower s e)"
proof (cases e)
  case (SetQ v)
  have "acknowledged s a" if "acknowledged (setQ lower v s) a"
    using that
    by (auto simp: acknowledged_cases cards_setQ new_card_def split: if_splits option.splits)
  moreover have "cards (setQ lower v s) a = cards s a" if "acknowledged (setQ lower v s) a"
    using that
    by (auto simp: acknowledged_cases cards_setQ new_card_def split: if_splits option.splits)
  ultimately show ?thesis
    using J unfolding SetQ revert_pending_def by (auto simp: setQ_def)
next
  case (Toggle k)
  show ?thesis
  proof (cases "k = a")
    case True
    have "\<not> acknowledged (toggle a s) a"
      by (auto simp: acknowledged_cases toggle_def split: option.splits if_splits)
    then show ?thesis unfolding Toggle True revert_pending_def by simp
  next
    case False
    then have "cards (toggle k s) a = cards s a" by (simp add: cards_toggle_other)
    moreover have "timers (toggle k s) = timers s" "clock (toggle k s) = clock s"
      by (simp_all add: toggle_def split: option.splits)
    ultimately show ?thesis
      using J unfolding Toggle revert_pending_def by (simp add: acknowledged_def)
  qed
next
  case (Copy k env)
  with ne have "k \<noteq> a" by blast
  then have "cards (step lower s (Copy k env)) a = cards s a" by (rule cards_step_Copy_other)
  moreover have "clock (step lower s (Copy k env)) = clock s"
    using clock_step [of lower s "Copy k env"] by simp
  moreover note timers_step_Copy [of s lower k env]
  ultimately show ?thesis
    using J unfolding Copy revert_pending_def by (auto simp: acknowledged_def)
next
  case (Advance d)
  show ?thesis
    unfolding Advance revert_pending_def
  proof (intro impI)
    assume ack: "acknowledged (step lower s (Advance d)) a"
    then have ack': "acknowledged (advance d s) a" by simp
    from acknowledged_advance [OF ack'] obtain c b where
      cb: "cards s a = Some c" "copyBtn c = Some b" "ok b"
        "\<forall>t. (t, inst b) \<in> set (timers s) \<longrightarrow> \<not> t \<le> clock s + d" by blast
    then have "acknowledged s a" by (auto simp: acknowledged_cases)
    with J cb have i: "inst b = i" and T: "(T, i) \<in> set (timers s)"
      by (auto simp: revert_pending_def)
    from cb(4) i T have later: "\<not> T \<le> clock s + d" by blast
    have "cards (advance d s) a = Some c"
      using cb i later
      by (auto simp: advance_def Let_def fire_apply image_iff)
    moreover have "(T, i) \<in> set (timers (advance d s))"
      using T later by (simp add: advance_def Let_def)
    moreover have "clock (advance d s) < T"
      using later by (simp add: advance_def Let_def)
    ultimately show "(\<exists>c b. cards (step lower s (Advance d)) a = Some c \<and> copyBtn c = Some b \<and>
          inst b = i) \<and> (T, i) \<in> set (timers (step lower s (Advance d))) \<and>
          clock (step lower s (Advance d)) < T"
      using cb i by simp
  qed
qed

lemma revert_pending_foldl:
  "revert_pending T i a s \<Longrightarrow> \<forall>env. Copy a env \<notin> set evs \<Longrightarrow>
   revert_pending T i a (foldl (step lower) s evs)"
proof (induction evs arbitrary: s)
  case Nil
  then show ?case by simp
next
  case (Cons e evs)
  from Cons.prems have "\<forall>env. e \<noteq> Copy a env" by auto
  with Cons.prems(1) have "revert_pending T i a (step lower s e)" by (rule revert_pending_step)
  moreover from Cons.prems have "\<forall>env. Copy a env \<notin> set evs" by auto
  ultimately show ?case using Cons.IH by simp
qed

lemma step_Copy_Granted:
  assumes "cards s a = Some c" "copyBtn c = Some b"
  shows "step lower s (Copy a Granted) =
      s\<lparr> cards := (cards s)(a \<mapsto> c\<lparr> copyBtn := Some (b\<lparr> ok := True \<rparr>) \<rparr>),
         timers := timers s @ [(clock s + 1500, inst b)], uncaught := uncaught s \<rparr>"
  using assms by (simp add: copy_onClick_mounted writeText_def)

lemma instances_ok_init: "instances_ok (init lower)"
  by (auto simp: instances_ok_def cards_init new_card_def split: if_splits)

lemma instances_ok_setQ: "instances_ok s \<Longrightarrow> instances_ok (setQ lower v s)"
  unfolding instances_ok_def
proof (intro conjI allI impI)
  fix k c b
  assume ok: "(\<forall>k c b. cards s k = Some c \<longrightarrow> copyBtn c = Some b \<longrightarrow> inst b < fresh s) \<and>
     (\<forall>k k' c c' b b'. cards s k = Some c \<longrightarrow> copyBtn c = Some b \<longrightarrow>
        cards s k' = Some c' \<longrightarrow> copyBtn c' = Some b' \<longrightarrow> inst b = inst b' \<longrightarrow> k = k')"
    and c: "cards (setQ lower v s) k = Some c" and b: "copyBtn c = Some b"
  from c b have "cards s k = Some c"
    by (auto simp: cards_setQ new_card_def split: if_splits option.splits)
  with ok b show "inst b < fresh (setQ lower v s)" by (auto simp: setQ_def)
next
  fix k k' c c' b b'
  assume ok: "(\<forall>k c b. cards s k = Some c \<longrightarrow> copyBtn c = Some b \<longrightarrow> inst b < fresh s) \<and>
     (\<forall>k k' c c' b b'. cards s k = Some c \<longrightarrow> copyBtn c = Some b \<longrightarrow>
        cards s k' = Some c' \<longrightarrow> copyBtn c' = Some b' \<longrightarrow> inst b = inst b' \<longrightarrow> k = k')"
    and c: "cards (setQ lower v s) k = Some c" "copyBtn c = Some b"
    and c': "cards (setQ lower v s) k' = Some c'" "copyBtn c' = Some b'"
    and eq: "inst b = inst b'"
  from c have "cards s k = Some c"
    by (auto simp: cards_setQ new_card_def split: if_splits option.splits)
  moreover from c' have "cards s k' = Some c'"
    by (auto simp: cards_setQ new_card_def split: if_splits option.splits)
  ultimately show "k = k'" using ok c(2) c'(2) eq by blast
qed

lemma instances_ok_toggle: "instances_ok s \<Longrightarrow> instances_ok (toggle a s)"
  unfolding instances_ok_def toggle_def
  by (cases "cards s a") (fastforce split: if_splits)+

lemma instances_ok_copy: "instances_ok s \<Longrightarrow> instances_ok (step lower s (Copy k env))"
  unfolding instances_ok_def
  by (cases "cards s k"; cases env)
    (fastforce simp: copy_onClick_def writeText_def split: option.splits if_splits)+

lemma instances_ok_advance: "instances_ok s \<Longrightarrow> instances_ok (advance d s)"
  unfolding instances_ok_def advance_def Let_def
  by (fastforce simp: fire_apply split: option.splits if_splits)

lemma instances_ok_step: "instances_ok s \<Longrightarrow> instances_ok (step lower s e)"
  by (cases e)
    (simp_all only: step.simps instances_ok_setQ instances_ok_toggle instances_ok_advance
      instances_ok_copy [simplified])

lemma instances_ok_foldl: "instances_ok s \<Longrightarrow> instances_ok (foldl (step lower) s evs)"
  by (induction evs arbitrary: s) (simp_all add: instances_ok_step del: step.simps)

lemma instances_ok_run: "instances_ok (run lower evs)"
  unfolding run_def using instances_ok_init by (rule instances_ok_foldl)

lemma tick_held_step:
  assumes K: "tick_held T i a s" and keep: "keeps lower a e"
    and early: "clock (step lower s e) < T"
  shows "tick_held T i a (step lower s e)"
proof -
  from K obtain c b where ok_s: "instances_ok s"
    and cb: "cards s a = Some c" "copyBtn c = Some b" "inst b = i" "ok b"
    and tm: "\<forall>t. (t, i) \<in> set (timers s) \<longrightarrow> T \<le> t"
    by (auto simp: tick_held_def)
  have ok': "instances_ok (step lower s e)" using ok_s by (rule instances_ok_step)
  show ?thesis
  proof (cases e)
    case (SetQ v)
    with keep have "a \<in> id' ` set (shown lower v)" by simp
    then have "cards (setQ lower v s) a = Some c" using cb by (simp add: cards_setQ)
    moreover have "timers (setQ lower v s) = timers s" by (simp add: setQ_def)
    ultimately show ?thesis
      using ok' cb tm unfolding SetQ tick_held_def by simp
  next
    case (Toggle k)
    with keep have "k \<noteq> a" by simp
    then have "cards (toggle k s) a = Some c" using cb by (simp add: cards_toggle_other)
    moreover have "timers (toggle k s) = timers s"
      by (simp add: toggle_def split: option.splits)
    ultimately show ?thesis
      using ok' cb tm unfolding Toggle tick_held_def by simp
  next
    case (Copy k env)
    with keep have ne: "k \<noteq> a" by simp
    have ca: "cards (step lower s (Copy k env)) a = Some c"
      unfolding cards_step_Copy_other [OF ne] by (rule cb(1))
    have "T \<le> t" if "(t, i) \<in> set (timers (step lower s (Copy k env)))" for t
    proof (cases "(t, i) \<in> set (timers s)")
      case True
      with tm show ?thesis by blast
    next
      case False
      with that obtain c' b' where "cards s k = Some c'" "copyBtn c' = Some b'" "inst b' = i"
        by (auto simp: copy_onClick_def split: option.splits sum.splits)
      with cb ok_s have "k = a" unfolding instances_ok_def by blast
      with ne show ?thesis by simp
    qed
    with ok' ca cb show ?thesis unfolding Copy tick_held_def by blast
  next
    case (Advance d)
    with early have now: "clock s + d < T" by (simp add: advance_def Let_def)
    have "i \<notin> snd ` set (filter (\<lambda>(t, i). t \<le> clock s + d) (timers s))"
      using tm now by force
    then have "cards (advance d s) a = Some c"
      using cb by (simp add: advance_def Let_def fire_apply)
    moreover have "T \<le> t" if "(t, i) \<in> set (timers (advance d s))" for t
      using that tm by (simp add: advance_def Let_def)
    ultimately show ?thesis
      using ok' cb unfolding Advance tick_held_def by simp
  qed
qed

lemma tick_held_foldl:
  "tick_held T i a s \<Longrightarrow> list_all (keeps lower a) evs \<Longrightarrow>
   clock (foldl (step lower) s evs) < T \<Longrightarrow> tick_held T i a (foldl (step lower) s evs)"
proof (induction evs arbitrary: s)
  case Nil
  then show ?case by simp
next
  case (Cons e evs)
  have "clock (step lower s e) \<le> clock (foldl (step lower) (step lower s e) evs)"
    by (rule clock_mono_foldl)
  with Cons.prems(3) have early: "clock (step lower s e) < T" by simp
  from Cons.prems(2) have "keeps lower a e" by simp
  with Cons.prems(1) have "tick_held T i a (step lower s e)"
    using early by (rule tick_held_step)
  moreover from Cons.prems(2) have "list_all (keeps lower a) evs" by simp
  moreover from Cons.prems(3) have "clock (foldl (step lower) (step lower s e) evs) < T" by simp
  ultimately show ?case using Cons.IH by simp
qed

lemma run_app_Cons:
  "run lower (evs0 @ e # evs) = foldl (step lower) (step lower (run lower evs0) e) evs"
  by (simp add: run_def)

text \<open>
  \<^bold>\<open>C8, as the code has it.\<close> In any state the page can reach in which card \<open>a\<close>
  is open, a successful copy shows the acknowledgment at once. Whatever happens
  afterwards other than another copy on \<open>a\<close> (search edits, toggles, copies on other
  cards, time passing), once 1500 milliseconds have passed since the copy the
  acknowledgment is not shown. It stays until then under interactions that leave the
  card on the page, when no reset of the same button from an earlier copy was still
  pending. Time is the page's clock in milliseconds; a callback runs when its time has
  come.
\<close>
theorem acknowledgment_reverts:
  assumes c: "cards (run lower evs0) a = Some c" and b: "copyBtn c = Some b"
  shows "acknowledged (run lower (evs0 @ [Copy a Granted])) a \<and>
     (\<forall>evs. (\<forall>env. Copy a env \<notin> set evs) \<longrightarrow>
        clock (run lower evs0) + 1500 \<le> clock (run lower (evs0 @ Copy a Granted # evs)) \<longrightarrow>
        \<not> acknowledged (run lower (evs0 @ Copy a Granted # evs)) a) \<and>
     (\<forall>evs. list_all (keeps lower a) evs \<longrightarrow>
        inst b \<notin> snd ` set (timers (run lower evs0)) \<longrightarrow>
        clock (run lower (evs0 @ Copy a Granted # evs)) < clock (run lower evs0) + 1500 \<longrightarrow>
        acknowledged (run lower (evs0 @ Copy a Granted # evs)) a)"
proof -
  let ?s = "run lower evs0"
  let ?s1 = "step lower ?s (Copy a Granted)"
  let ?T = "clock ?s + 1500"
  note s1 = step_Copy_Granted [OF c b, of lower]
  have ack1: "acknowledged ?s1 a" unfolding s1 by (simp add: acknowledged_def)
  have first: "acknowledged (run lower (evs0 @ [Copy a Granted])) a"
    using ack1 by (simp only: run_snoc)
  have J: "revert_pending ?T (inst b) a ?s1"
    unfolding revert_pending_def s1 by simp
  have second: "\<not> acknowledged (run lower (evs0 @ Copy a Granted # evs)) a"
    if "\<forall>env. Copy a env \<notin> set evs"
      and "?T \<le> clock (run lower (evs0 @ Copy a Granted # evs))" for evs
  proof -
    from J that(1) have "revert_pending ?T (inst b) a (foldl (step lower) ?s1 evs)"
      by (rule revert_pending_foldl)
    with that(2) show ?thesis
      unfolding run_app_Cons revert_pending_def by auto
  qed
  have third: "acknowledged (run lower (evs0 @ Copy a Granted # evs)) a"
    if "list_all (keeps lower a) evs" and "inst b \<notin> snd ` set (timers ?s)"
      and "clock (run lower (evs0 @ Copy a Granted # evs)) < ?T" for evs
  proof -
    have "instances_ok ?s1" using instances_ok_run by (rule instances_ok_step)
    moreover have "\<forall>t. (t, inst b) \<in> set (timers ?s1) \<longrightarrow> ?T \<le> t"
      using that(2) unfolding s1 by force
    ultimately have "tick_held ?T (inst b) a ?s1"
      unfolding tick_held_def using s1 by simp
    then have "tick_held ?T (inst b) a (foldl (step lower) ?s1 evs)"
      using that(1) that(3) [unfolded run_app_Cons] by (rule tick_held_foldl)
    then show ?thesis
      unfolding run_app_Cons tick_held_def by (auto simp: acknowledged_cases)
  qed
  from first second third show ?thesis by blast
qed

lemma clock_run:
  "clock (run lower evs) = sum_list (map (\<lambda>e. case e of Advance d \<Rightarrow> d | _ \<Rightarrow> 0) evs)"
proof (induction evs rule: rev_induct)
  case Nil
  show ?case by (simp add: run_Nil init_def)
next
  case (snoc e evs)
  show ?case unfolding run_snoc clock_step snoc.IH by simp
qed

lemma timers_run_Toggle: "timers (run lower [Toggle k]) = []"
  using run_snoc [of lower "[]" "Toggle k"]
  by (simp add: run_Nil toggle_def init_def split: option.splits)

theorem acknowledgment_reverts_witness:
  "acknowledged (run toLowerCase
      [Toggle (utf16 ''useState''), Copy (utf16 ''useState'') Granted]) (utf16 ''useState'') \<and>
   \<not> acknowledged (run toLowerCase
      [Toggle (utf16 ''useState''), Copy (utf16 ''useState'') Granted,
       Toggle (utf16 ''useRef''), Advance 1500]) (utf16 ''useState'') \<and>
   acknowledged (run toLowerCase
      [Toggle (utf16 ''useState''), Copy (utf16 ''useState'') Granted,
       Toggle (utf16 ''useRef''), Advance 1499]) (utf16 ''useState'') \<and>
   \<not> acknowledged (run toLowerCase
      [Toggle (utf16 ''useState''), Copy (utf16 ''useState'') Granted,
       SetQ (utf16 ''useReducer''), Advance 1500]) (utf16 ''useState'')"
proof -
  let ?E = "utf16 ''useState''"
  note rv = acknowledgment_reverts [OF run_Toggle_useState, of "\<lparr> inst = 0, ok = False \<rparr>"]
  have b: "copyBtn \<lparr> open_card = True, copyBtn = Some \<lparr> inst = 0, ok = False \<rparr> \<rparr> =
      Some \<lparr> inst = 0, ok = False \<rparr>" by simp
  have ne: "utf16 ''useRef'' \<noteq> ?E" by (simp add: utf16_eq_iff)
  have first: "acknowledged (run toLowerCase ([Toggle ?E] @ [Copy ?E Granted])) ?E"
    using rv [OF b] by blast
  have "\<forall>env. Copy ?E env \<notin> set [Toggle (utf16 ''useRef''), Advance 1500]" by simp
  moreover have "clock (run toLowerCase [Toggle ?E]) + 1500 \<le>
      clock (run toLowerCase ([Toggle ?E] @ Copy ?E Granted #
        [Toggle (utf16 ''useRef''), Advance 1500]))"
    by (simp add: clock_run)
  ultimately have second: "\<not> acknowledged (run toLowerCase ([Toggle ?E] @ Copy ?E Granted #
        [Toggle (utf16 ''useRef''), Advance 1500])) ?E"
    using rv [OF b] by blast
  have "list_all (keeps toLowerCase ?E) [Toggle (utf16 ''useRef''), Advance 1499]"
    using ne by simp
  moreover have "inst \<lparr> inst = 0, ok = False \<rparr> \<notin> snd ` set (timers (run toLowerCase [Toggle ?E]))"
    by (simp add: timers_run_Toggle)
  moreover have "clock (run toLowerCase ([Toggle ?E] @ Copy ?E Granted #
        [Toggle (utf16 ''useRef''), Advance 1499])) < clock (run toLowerCase [Toggle ?E]) + 1500"
    by (simp add: clock_run)
  ultimately have third: "acknowledged (run toLowerCase ([Toggle ?E] @ Copy ?E Granted #
        [Toggle (utf16 ''useRef''), Advance 1499])) ?E"
    using rv [OF b] by blast
  have "\<forall>env. Copy ?E env \<notin> set [SetQ (utf16 ''useReducer''), Advance 1500]" by simp
  moreover have "clock (run toLowerCase [Toggle ?E]) + 1500 \<le>
      clock (run toLowerCase ([Toggle ?E] @ Copy ?E Granted #
        [SetQ (utf16 ''useReducer''), Advance 1500]))"
    by (simp add: clock_run)
  ultimately have fourth: "\<not> acknowledged (run toLowerCase ([Toggle ?E] @ Copy ?E Granted #
        [SetQ (utf16 ''useReducer''), Advance 1500])) ?E"
    using rv [OF b] by blast
  from first second third fourth show ?thesis by simp
qed

lemma acknowledged_advance_iff:
  "acknowledged (advance d s) k \<longleftrightarrow>
     (\<exists>c b. cards s k = Some c \<and> copyBtn c = Some b \<and> ok b \<and>
        inst b \<notin> snd ` set (filter (\<lambda>(t, i). t \<le> clock s + d) (timers s)))"
  by (auto simp: acknowledged_cases advance_def Let_def fire_apply split: option.splits if_splits)

text \<open>
  \<^bold>\<open>C8, as stated, fails.\<close> The acknowledgment does not always last the fixed
  duration. A search edit that hides the card takes the acknowledgment away with no
  time passed. And the callback of a first copy is not cancelled by a second copy one
  second later: it resets the button 500 milliseconds after the second copy.
\<close>

theorem acknowledgment_duration_counterexample:
  "acknowledged (run toLowerCase
      [Toggle (utf16 ''useState''), Copy (utf16 ''useState'') Granted]) (utf16 ''useState'') \<and>
   \<not> acknowledged (run toLowerCase
      [Toggle (utf16 ''useState''), Copy (utf16 ''useState'') Granted,
       SetQ (utf16 ''useReducer'')]) (utf16 ''useState'') \<and>
   clock (run toLowerCase
      [Toggle (utf16 ''useState''), Copy (utf16 ''useState'') Granted,
       SetQ (utf16 ''useReducer'')]) = 0 \<and>
   acknowledged (run toLowerCase
      [Toggle (utf16 ''useState''), Copy (utf16 ''useState'') Granted, Advance 1000,
       Copy (utf16 ''useState'') Granted]) (utf16 ''useState'') \<and>
   clock (run toLowerCase
      [Toggle (utf16 ''useState''), Copy (utf16 ''useState'') Granted, Advance 1000,
       Copy (utf16 ''useState'') Granted]) = 1000 \<and>
   \<not> acknowledged (run toLowerCase
      [Toggle (utf16 ''useState''), Copy (utf16 ''useState'') Granted, Advance 1000,
       Copy (utf16 ''useState'') Granted, Advance 500]) (utf16 ''useState'') \<and>
   clock (run toLowerCase
      [Toggle (utf16 ''useState''), Copy (utf16 ''useState'') Granted, Advance 1000,
       Copy (utf16 ''useState'') Granted, Advance 500]) = 1500"
proof -
  let ?E = "utf16 ''useState''" and ?U = "utf16 ''useReducer''"
  let ?b0 = "\<lparr> inst = 0, ok = False \<rparr>"
  let ?c0 = "\<lparr> open_card = True, copyBtn = Some ?b0 \<rparr>"
  let ?c1 = "\<lparr> open_card = True, copyBtn = Some \<lparr> inst = 0, ok = True \<rparr> \<rparr>"
  define s0 where "s0 = run toLowerCase [Toggle ?E]"
  have c0: "cards s0 ?E = Some ?c0" unfolding s0_def by (rule run_Toggle_useState)
  have t0: "timers s0 = []" unfolding s0_def by (rule timers_run_Toggle)
  have k0: "clock s0 = 0" unfolding s0_def by (simp add: clock_run)
  \<comment> \<open>the first copy\<close>
  define s1 where "s1 = step toLowerCase s0 (Copy ?E Granted)"
  have r1: "run toLowerCase [Toggle ?E, Copy ?E Granted] = s1"
    unfolding s1_def s0_def
    using run_snoc [of toLowerCase "[Toggle ?E]" "Copy ?E Granted"] by simp
  have s1: "s1 = s0\<lparr> cards := (cards s0)(?E \<mapsto> ?c1), timers := [(1500, 0)],
      uncaught := uncaught s0 \<rparr>"
    unfolding s1_def
    using step_Copy_Granted [OF c0, of ?b0 toLowerCase] by (simp add: t0 k0)
  have c1: "cards s1 ?E = Some ?c1" unfolding s1 by simp
  have t1: "timers s1 = [(1500, 0)]" unfolding s1 by simp
  have k1: "clock s1 = 0" unfolding s1 by (simp add: k0)
  have a1: "acknowledged s1 ?E" by (simp add: acknowledged_def c1)
  \<comment> \<open>a search edit hides the card\<close>
  have r2: "run toLowerCase [Toggle ?E, Copy ?E Granted, SetQ ?U] = setQ toLowerCase ?U s1"
    using run_snoc [of toLowerCase "[Toggle ?E, Copy ?E Granted]" "SetQ ?U"]
    unfolding r1 by simp
  have a2: "\<not> acknowledged (setQ toLowerCase ?U s1) ?E"
    by (simp add: acknowledged_def cards_setQ useState_hidden_useReducer)
  have k2: "clock (setQ toLowerCase ?U s1) = 0" by (simp add: setQ_def k1)
  \<comment> \<open>a second copy after one second\<close>
  define s3 where "s3 = advance 1000 s1"
  have c3: "cards s3 ?E = Some ?c1"
    unfolding s3_def by (simp add: advance_def Let_def t1 k1 c1)
  have t3: "timers s3 = [(1500, 0)]" unfolding s3_def by (simp add: advance_def Let_def t1 k1)
  have k3: "clock s3 = 1000" unfolding s3_def by (simp add: advance_def Let_def k1)
  define s4 where "s4 = step toLowerCase s3 (Copy ?E Granted)"
  have s4: "s4 = s3\<lparr> cards := (cards s3)(?E \<mapsto> ?c1), timers := [(1500, 0), (2500, 0)],
      uncaught := uncaught s3 \<rparr>"
    unfolding s4_def
    using step_Copy_Granted [OF c3, of "\<lparr> inst = 0, ok = True \<rparr>" toLowerCase]
    by (simp add: t3 k3)
  have c4: "cards s4 ?E = Some ?c1" unfolding s4 by simp
  have t4: "timers s4 = [(1500, 0), (2500, 0)]" unfolding s4 by simp
  have k4: "clock s4 = 1000" unfolding s4 by (simp add: k3)
  have a4: "acknowledged s4 ?E" by (simp add: acknowledged_def c4)
  have a5: "\<not> acknowledged (advance 500 s4) ?E"
    unfolding acknowledged_advance_iff by (simp add: c4 t4 k4)
  have k5: "clock (advance 500 s4) = 1500" by (simp add: advance_def Let_def k4)
  have r3: "run toLowerCase [Toggle ?E, Copy ?E Granted, Advance 1000] = s3"
    using run_snoc [of toLowerCase "[Toggle ?E, Copy ?E Granted]" "Advance 1000"]
    unfolding r1 s3_def by simp
  have r4: "run toLowerCase [Toggle ?E, Copy ?E Granted, Advance 1000, Copy ?E Granted] = s4"
    using run_snoc [of toLowerCase "[Toggle ?E, Copy ?E Granted, Advance 1000]"
        "Copy ?E Granted"]
    unfolding s4_def r3 [symmetric] by simp
  have r5: "run toLowerCase
      [Toggle ?E, Copy ?E Granted, Advance 1000, Copy ?E Granted, Advance 500] =
      advance 500 s4"
    using run_snoc [of toLowerCase
        "[Toggle ?E, Copy ?E Granted, Advance 1000, Copy ?E Granted]" "Advance 500"]
    unfolding r4 by simp
  show ?thesis
    unfolding r1 r2 r4 r5 using a1 a2 k2 a4 k4 a5 k5 by (simp only: simp_thms)
qed


end
